theory Spec2Isabelle
  imports Main "HOL-Library.AList"
begin

section \<open>Python values and exceptions\<close>

text \<open>
  The program is the module \<^verbatim>\<open>ifcpatch/__init__.py\<close>. Its functions are embedded as HOL
  functions over the Python values they touch. A document (an \<^verbatim>\<open>ifcopenshell.file\<close>) is
  known to the program only as an object that is passed on, so it is a handle. A float is
  never computed with, so it is held by its literal text. \<open>PObj\<close> stands for any other
  object that has none of the attributes the program reads, named by its \<^verbatim>\<open>repr\<close>.
\<close>

type_synonym handle = nat

datatype pyval =
    PNone
  | PBool bool
  | PInt int
  | PFloat string
  | PStr string
  | PList "pyval list"
  | PFile handle
  | PLogger
  | PObj string

text \<open>
  The exceptions that the module raises itself, or names in an \<^verbatim>\<open>except\<close> clause, and
  \<open>Raised\<close> for every other exception that called code may raise (one that is none of
  these, nor a subclass of one).
\<close>

datatype exn =
    ModuleNotFoundError
  | AttributeError
  | ValueError string
  | TypeError
  | IndexError
  | KeyError
  | Raised string


section \<open>The execution engine\<close>

subsection \<open>The request\<close>

text \<open>
  \<^verbatim>\<open>ArgumentsDict\<close> is a dictionary with the required key \<^verbatim>\<open>recipe\<close> and four keys that
  may be missing. \<^verbatim>\<open>execute\<close> reads \<^verbatim>\<open>file\<close>, \<^verbatim>\<open>input\<close> and \<^verbatim>\<open>arguments\<close> with \<^verbatim>\<open>args.get\<close>,
  which gives \<^verbatim>\<open>None\<close> for a missing key (for \<^verbatim>\<open>arguments\<close>: the default \<^verbatim>\<open>[]\<close>) and also for
  a key that maps to \<^verbatim>\<open>None\<close>, and it tests \<^verbatim>\<open>"file" in args\<close> and \<^verbatim>\<open>"log" in args\<close>, which
  tell the two apart. So an entry has three states.
\<close>

datatype 'a entry = Missing | Null | Val 'a

fun get :: "'a entry \<Rightarrow> 'a option" where
  "get Missing = None"
| "get Null = None"
| "get (Val v) = Some v"

fun contains :: "'a entry \<Rightarrow> bool" where
  "contains Missing = False"
| "contains Null = True"
| "contains (Val v) = True"

record ArgumentsDict =
  recipe :: string
  file' :: "handle entry"
  input :: "string entry"
  log :: "string entry"
  arguments :: "pyval list entry"

text \<open>\<^verbatim>\<open>not x\<close> for \<open>x\<close> that is \<^verbatim>\<open>None\<close> or a string.\<close>

fun falsy :: "string option \<Rightarrow> bool" where
  "falsy None = True"
| "falsy (Some s) = (s = [])"

fun str_val :: "string option \<Rightarrow> pyval" where
  "str_val None = PNone"
| "str_val (Some s) = PStr s"

fun file_val :: "handle option \<Rightarrow> pyval" where
  "file_val None = PNone"
| "file_val (Some h) = PFile h"

subsection \<open>Recipes\<close>

text \<open>
  A recipe is a module \<^verbatim>\<open>ifcpatch.recipes.<name>\<close> with a class \<^verbatim>\<open>Patcher\<close>. The engine
  reads the class attribute \<^verbatim>\<open>input_argument\<close> (which may be missing), the docstring of
  \<^verbatim>\<open>__init__\<close> (which may be \<^verbatim>\<open>None\<close>), calls the constructor with positional
  parameters, calls \<^verbatim>\<open>patch()\<close> on the instance, and reads the instance attributes
  \<^verbatim>\<open>file\<close> and \<^verbatim>\<open>file_patched\<close> (each of which may be missing). Constructor and
  \<^verbatim>\<open>patch\<close> are code of the recipe: any function that returns or raises.
\<close>

record patcher_instance =
  attr_file :: "pyval option"
  attr_file_patched :: "pyval option"
  state :: "pyval list"

record Patcher =
  input_argument :: "string option"
  init_doc :: "string option"
  init :: "pyval list \<Rightarrow> exn + patcher_instance"
  patch :: "patcher_instance \<Rightarrow> exn + patcher_instance"

record recipe_module =
  Patcher_class :: "Patcher option"

text \<open>
  What \<^verbatim>\<open>execute\<close> calls outside this module before it reaches the recipe:
  \<^verbatim>\<open>logging.basicConfig(filename=..., filemode="a", level=logging.DEBUG)\<close>, which may
  open the log file and so may raise, and the import of \<^verbatim>\<open>ifcpatch.recipes.<name>\<close>,
  which gives the module or raises.
\<close>

record environment =
  basicConfig :: "string option \<Rightarrow> exn option"
  import_module :: "string \<Rightarrow> exn + recipe_module"

text \<open>\<^verbatim>\<open>getattr(recipe_module.Patcher, "input_argument", "IGNORED")\<close>\<close>

definition policy :: "Patcher \<Rightarrow> string" where
  "policy P = (case input_argument P of None \<Rightarrow> ''IGNORED'' | Some a \<Rightarrow> a)"

definition get_patch_input_argument_use :: "environment \<Rightarrow> string \<Rightarrow> exn + string" where
  "get_patch_input_argument_use env r =
     (case import_module env r of
        Inl e \<Rightarrow> Inl e
      | Inr recipe_module \<Rightarrow>
          (case Patcher_class recipe_module of
             None \<Rightarrow> Inl AttributeError
           | Some P \<Rightarrow> Inr (policy P)))"

subsection \<open>execute\<close>

text \<open>
  The calls that \<^verbatim>\<open>execute\<close> makes outside this module, in the order they happen: the
  configuration of logging, the two imports of the recipe module (line 89 and, in
  \<^verbatim>\<open>get_patch_input_argument_use\<close>, line 113), the call of the constructor with its
  positional parameters (after \<^verbatim>\<open>self\<close>), and the call of \<^verbatim>\<open>patch\<close>. \<^verbatim>\<open>execute\<close> gives this
  trace and what it returns or raises.
\<close>

datatype event =
    BasicConfig "string option"
  | Import string
  | Construct "pyval list"
  | Patch

fun is_Construct :: "event \<Rightarrow> bool" where
  "is_Construct (Construct ps) = True"
| "is_Construct e = False"

text \<open>Lines 86 and 87: the call, if there is one, and whether it raises.\<close>

definition basic_config :: "ArgumentsDict \<Rightarrow> event list" where
  "basic_config args = (if contains (log args) then [BasicConfig (get (log args))] else [])"

definition configure :: "environment \<Rightarrow> ArgumentsDict \<Rightarrow> exn option" where
  "configure env args =
     (if contains (log args) then basicConfig env (get (log args)) else None)"

definition input_required :: "string \<Rightarrow> exn" where
  "input_required r = ValueError (''Recipe '' @ r @ '' is requiring 'input' argument to be provided.'')"

definition file_required :: "string \<Rightarrow> exn" where
  "file_required r = ValueError (''Recipe '' @ r @ '' is requiring 'file' argument to be provided.'')"

text \<open>
  Lines 100 to 104: the positional parameters of the constructor call. With a docstring on
  \<^verbatim>\<open>__init__\<close> the value of \<^verbatim>\<open>arguments\<close> is spread (\<^verbatim>\<open>*arguments\<close>), and spreading \<^verbatim>\<open>None\<close>
  raises \<^verbatim>\<open>TypeError\<close> before the call; without a docstring the value is passed as one
  parameter.
\<close>

definition base_parameters :: "ArgumentsDict \<Rightarrow> pyval list" where
  "base_parameters args = [str_val (get (input args)), file_val (get (file' args)), PLogger]"

definition positional :: "Patcher \<Rightarrow> ArgumentsDict \<Rightarrow> exn + pyval list" where
  "positional P args =
     (if init_doc P \<noteq> None
      then (case arguments args of
              Missing \<Rightarrow> Inr (base_parameters args)
            | Null \<Rightarrow> Inl TypeError
            | Val xs \<Rightarrow> Inr (base_parameters args @ xs))
      else (case arguments args of
              Missing \<Rightarrow> Inr (base_parameters args @ [PList []])
            | Null \<Rightarrow> Inr (base_parameters args @ [PNone])
            | Val xs \<Rightarrow> Inr (base_parameters args @ [PList xs])))"

text \<open>
  Lines 105 to 107, on the instance that the constructor returned. In
  \<^verbatim>\<open>getattr(patcher, "file_patched", patcher.file)\<close> the default \<^verbatim>\<open>patcher.file\<close> is an
  argument of the call, so Python reads it first, whether or not \<^verbatim>\<open>file_patched\<close> exists.
\<close>

definition patch_and_read :: "Patcher \<Rightarrow> patcher_instance \<Rightarrow> event list \<times> (exn + pyval)" where
  "patch_and_read P patcher =
     (case patch P patcher of
        Inl e \<Rightarrow> ([Patch], Inl e)
      | Inr patcher' \<Rightarrow>
          ([Patch],
           (case attr_file patcher' of
              None \<Rightarrow> Inl AttributeError
            | Some f \<Rightarrow>
                Inr (case attr_file_patched patcher' of
                       Some p \<Rightarrow> p
                     | None \<Rightarrow> f))))"

text \<open>Lines 100 to 107.\<close>

definition run_patcher :: "Patcher \<Rightarrow> ArgumentsDict \<Rightarrow> event list \<times> (exn + pyval)" where
  "run_patcher P args =
     (case positional P args of
        Inl e \<Rightarrow> ([], Inl e)
      | Inr ps \<Rightarrow>
          (case init P ps of
             Inl e \<Rightarrow> ([Construct ps], Inl e)
           | Inr patcher \<Rightarrow>
               (case patch_and_read P patcher of
                  (evs, r) \<Rightarrow> (Construct ps # evs, r))))"

definition execute :: "environment \<Rightarrow> ArgumentsDict \<Rightarrow> event list \<times> (exn + pyval)" where
  "execute env args =
     (case configure env args of
        Some e \<Rightarrow> (basic_config args, Inl e)
      | None \<Rightarrow>
          (case import_module env (recipe args) of
             Inl e \<Rightarrow> (basic_config args @ [Import (recipe args)], Inl e)
           | Inr recipe' \<Rightarrow>
               (case get_patch_input_argument_use env (recipe args) of
                  Inl e \<Rightarrow> (basic_config args @ [Import (recipe args), Import (recipe args)], Inl e)
                | Inr input_argument' \<Rightarrow>
                    if input_argument' = ''REQUIRED'' \<and> falsy (get (input args))
                    then (basic_config args @ [Import (recipe args), Import (recipe args)],
                          Inl (input_required (recipe args)))
                    else if input_argument' \<noteq> ''REQUIRED'' \<and> \<not> contains (file' args)
                    then (basic_config args @ [Import (recipe args), Import (recipe args)],
                          Inl (file_required (recipe args)))
                    else
                      (case Patcher_class recipe' of
                         None \<Rightarrow>
                           (basic_config args @ [Import (recipe args), Import (recipe args)],
                            Inl AttributeError)
                       | Some P \<Rightarrow>
                           (case run_patcher P args of
                              (evs, r) \<Rightarrow>
                                (basic_config args @
                                   [Import (recipe args), Import (recipe args)] @ evs,
                                 r))))))"

text \<open>
  A validation error: \<^verbatim>\<open>execute\<close> raised a \<^verbatim>\<open>ValueError\<close> and had not called the
  constructor.
\<close>

fun is_ValueError :: "exn + pyval \<Rightarrow> bool" where
  "is_ValueError (Inl (ValueError m)) = True"
| "is_ValueError r = False"

definition validation_error :: "event list \<times> (exn + pyval) \<Rightarrow> bool" where
  "validation_error out = (is_ValueError (snd out) \<and> filter is_Construct (fst out) = [])"

text \<open>The trace of a run that reached the validation.\<close>

definition before_validation :: "ArgumentsDict \<Rightarrow> event list" where
  "before_validation args = basic_config args @ [Import (recipe args), Import (recipe args)]"

subsection \<open>Example recipes\<close>

text \<open>
  A recipe like \<^verbatim>\<open>ExtractElements\<close>: no \<^verbatim>\<open>input_argument\<close>, a documented constructor
  \<^verbatim>\<open>__init__(self, src, file, logger, query)\<close> that stores the document and the query,
  and a \<^verbatim>\<open>patch\<close> that leaves the document as the result.
\<close>

definition extract_elements :: Patcher where
  "extract_elements =
     \<lparr> input_argument = None,
       init_doc = Some ''Extract certain elements into a new model'',
       init = (\<lambda>ps. case ps of
                 [src, f, logger, query] \<Rightarrow>
                   Inr \<lparr> attr_file = Some f, attr_file_patched = None, state = [query] \<rparr>
               | _ \<Rightarrow> Inl TypeError),
       patch = (\<lambda>i. Inr i) \<rparr>"

text \<open>
  A recipe that requires the raw path: \<^verbatim>\<open>input_argument = "REQUIRED"\<close>, an undocumented
  constructor \<^verbatim>\<open>__init__(self, src, file, logger, args)\<close>, and a \<^verbatim>\<open>patch\<close> that sets
  \<^verbatim>\<open>file_patched\<close> to a text.
\<close>

definition migrate :: Patcher where
  "migrate =
     \<lparr> input_argument = Some ''REQUIRED'',
       init_doc = None,
       init = (\<lambda>ps. case ps of
                 [src, f, logger, args] \<Rightarrow>
                   Inr \<lparr> attr_file = Some f, attr_file_patched = None, state = [src, args] \<rparr>
               | _ \<Rightarrow> Inl TypeError),
       patch = (\<lambda>i. Inr (i\<lparr> attr_file_patched := Some (PStr ''ISO-10303-21;'') \<rparr>)) \<rparr>"

text \<open>
  A recipe that works on the raw path only and never sets \<^verbatim>\<open>self.file\<close>: a documented
  constructor \<^verbatim>\<open>__init__(self, src, file, logger)\<close> that keeps the path, and a
  \<^verbatim>\<open>patch\<close> that sets \<^verbatim>\<open>file_patched\<close> to the path of the file it wrote.
\<close>

definition convert :: Patcher where
  "convert =
     \<lparr> input_argument = Some ''REQUIRED'',
       init_doc = Some ''Convert a model to another format'',
       init = (\<lambda>ps. case ps of
                 [src, f, logger] \<Rightarrow>
                   Inr \<lparr> attr_file = None, attr_file_patched = None, state = [src] \<rparr>
               | _ \<Rightarrow> Inl TypeError),
       patch = (\<lambda>i. Inr (i\<lparr> attr_file_patched := Some (PStr ''/tmp/out.sqlite'') \<rparr>)) \<rparr>"

text \<open>
  An environment with these three recipes, in which the log file
  \<^verbatim>\<open>/missing/patch.log\<close> cannot be opened because its directory does not exist.
\<close>

definition example_environment :: environment where
  "example_environment =
     \<lparr> basicConfig =
         (\<lambda>filename. if filename = Some ''/missing/patch.log''
                     then Some (Raised ''FileNotFoundError'') else None),
       import_module =
         (\<lambda>r. if r = ''ExtractElements'' then Inr \<lparr> Patcher_class = Some extract_elements \<rparr>
              else if r = ''Migrate'' then Inr \<lparr> Patcher_class = Some migrate \<rparr>
              else if r = ''Convert'' then Inr \<lparr> Patcher_class = Some convert \<rparr>
              else Inl ModuleNotFoundError) \<rparr>"


section \<open>The output writer\<close>






section \<open>Strings\<close>

text \<open>
  A string is a list of characters with code points below 256. \<^verbatim>\<open>str.strip()\<close> removes
  the characters for which \<^verbatim>\<open>str.isspace()\<close> holds; below 256 these are the twelve listed.
\<close>

definition isspace :: "char \<Rightarrow> bool" where
  "isspace c =
     (c = CHR 0x09 \<or> c = CHR 0x0A \<or> c = CHR 0x0B \<or> c = CHR 0x0C \<or> c = CHR 0x0D \<or>
      c = CHR 0x1C \<or> c = CHR 0x1D \<or> c = CHR 0x1E \<or> c = CHR 0x1F \<or> c = CHR 0x20 \<or>
      c = CHR 0x85 \<or> c = CHR 0xA0)"

definition strip :: "string \<Rightarrow> string" where
  "strip s = rev (dropWhile isspace (rev (dropWhile isspace s)))"

text \<open>\<^verbatim>\<open>s.split(sep)\<close> for a separator of one character: never the empty list.\<close>

fun split :: "char \<Rightarrow> string \<Rightarrow> string list" where
  "split sep [] = [[]]"
| "split sep (c # s) =
     (if c = sep then [] # split sep s
      else (case split sep s of
              [] \<Rightarrow> [[c]]
            | field # rest \<Rightarrow> (c # field) # rest))"

fun startswith :: "string \<Rightarrow> string \<Rightarrow> bool" where
  "startswith s [] = True"
| "startswith [] (p # prefix) = False"
| "startswith (c # s) (p # prefix) = (c = p \<and> startswith s prefix)"

text \<open>
  \<^verbatim>\<open>s.replace(old, new)\<close>: every occurrence of \<open>old\<close>, found from left to right without
  overlap, becomes \<open>new\<close>.
\<close>

fun replace :: "string \<Rightarrow> string \<Rightarrow> string \<Rightarrow> string" where
  "replace [] new s = new @ concat (map (\<lambda>c. c # new) s)"
| "replace (p # old) new [] = []"
| "replace (p # old) new (c # s) =
     (if startswith (c # s) (p # old) then new @ replace (p # old) new (drop (length old) s)
      else c # replace (p # old) new s)"

text \<open>\<^verbatim>\<open>xs[i]\<close> for an index that is not negative.\<close>

definition item :: "'a list \<Rightarrow> nat \<Rightarrow> exn + 'a" where
  "item xs i = (if i < length xs then Inr (xs ! i) else Inl IndexError)"


section \<open>Schema extraction\<close>

subsection \<open>What is introspected\<close>

text \<open>
  A type hint, as \<^verbatim>\<open>_extract_docs\<close> sees it: whether it is an instance of
  \<^verbatim>\<open>typing.GenericAlias\<close> (such as \<^verbatim>\<open>list[str]\<close>), of \<^verbatim>\<open>typing._UnionGenericAlias\<close> (such as
  \<^verbatim>\<open>Union[str, int]\<close>) or of neither, its \<^verbatim>\<open>__name__\<close> if it has one, and its
  \<^verbatim>\<open>typing.get_args\<close>. The arguments of a hint are hints again, or values that are not
  types, such as the strings of \<^verbatim>\<open>Literal["x", "y"]\<close>: a value has no \<^verbatim>\<open>__name__\<close> and no
  arguments.
\<close>

datatype alias_class = GenericAlias | UnionGenericAlias | NoAlias

datatype hint =
    Hint alias_class "string option" "hint list"
  | Constant pyval

fun alias_of :: "hint \<Rightarrow> alias_class" where
  "alias_of (Hint a n args) = a"
| "alias_of (Constant v) = NoAlias"

fun dunder_name :: "hint \<Rightarrow> string option" where
  "dunder_name (Hint a n args) = n"
| "dunder_name (Constant v) = None"

fun get_args :: "hint \<Rightarrow> hint list" where
  "get_args (Hint a n args) = args"
| "get_args (Constant v) = []"

text \<open>
  A method, as \<^verbatim>\<open>_extract_docs\<close> sees it: what \<^verbatim>\<open>inspect.signature(method)\<close> gives, namely
  the parameters in the order of their declaration, each with its default if it has one,
  or the exception it raises (\<^verbatim>\<open>TypeError\<close> for an attribute that is not callable,
  \<^verbatim>\<open>ValueError\<close> when no signature is found); what \<^verbatim>\<open>typing.get_type_hints(method)\<close> gives,
  namely the resolved hints by parameter name, or the exception it raises (\<^verbatim>\<open>NameError\<close>
  for an annotation that does not resolve, for one); and \<^verbatim>\<open>method.__doc__\<close>.
\<close>

record py_method =
  signature :: "exn + (string \<times> pyval option) list"
  get_type_hints :: "exn + (string \<rightharpoonup> hint)"
  doc :: "string option"

record py_class =
  class_name :: string
  methods :: "string \<rightharpoonup> py_method"

subsection \<open>The schema\<close>

text \<open>
  The dictionary of one parameter has the key \<^verbatim>\<open>name\<close> and six keys that may be missing.
  \<^verbatim>\<open>type\<close> is one name or a list of names.
\<close>

datatype type_entry = TypeName string | TypeNames "string list"

record input_data =
  name :: string
  default :: "pyval option"
  generic_type :: "string option"
  type' :: "type_entry option"
  enum_items :: "hint list option"
  description :: "string option"
  filter_glob :: "string option"

text \<open>
  \<^verbatim>\<open>inputs\<close> is an \<^verbatim>\<open>OrderedDict\<close>: an association list in which \<^verbatim>\<open>inputs[k] = v\<close>
  (\<open>AList.update\<close>) replaces the value of a key that is there and appends a new key at
  the end.
\<close>

type_synonym inputs = "(string \<times> input_data) list"

record docs =
  docs_class :: py_class
  docs_name :: "string option"
  docs_output :: "(string \<times> string) option"
  docs_description :: "string option"
  docs_inputs :: inputs

subsection \<open>The signature\<close>

text \<open>\<^verbatim>\<open>isinstance(parameter.default, (str, float, int, bool))\<close>\<close>

fun is_scalar :: "pyval \<Rightarrow> bool" where
  "is_scalar (PStr s) = True"
| "is_scalar (PFloat x) = True"
| "is_scalar (PInt i) = True"
| "is_scalar (PBool b) = True"
| "is_scalar v = False"

text \<open>Lines 178 to 180; a parameter without default has \<^verbatim>\<open>Parameter.empty\<close>, here \<open>None\<close>.\<close>

definition new_input :: "string \<Rightarrow> pyval option \<Rightarrow> input_data" where
  "new_input n d =
     \<lparr> name = n,
       default = (case d of None \<Rightarrow> None | Some v \<Rightarrow> if is_scalar v then Some v else None),
       generic_type = None, type' = None, enum_items = None, description = None,
       filter_glob = None \<rparr>"

text \<open>
  \<^verbatim>\<open>boilerplate_args\<close> is declared an iterable of strings, and the only thing done with it
  is the test \<^verbatim>\<open>name in boilerplate_args\<close>. What the test does depends on the kind of
  iterable. For a container (a list, a tuple, a set) it is membership. For a string it is
  the substring test. For an iterator, such as a generator or \<^verbatim>\<open>iter(xs)\<close>, the remaining
  items are taken one after the other until one equals the name: the items taken are gone
  for the next test. So the test returns its answer and the iterable as it is afterwards.
\<close>

datatype iterable =
    Container "string list"
  | Str string
  | Iterator "string list"

fun substring :: "string \<Rightarrow> string \<Rightarrow> bool" where
  "substring sub [] = (sub = [])"
| "substring sub (c # s) = (startswith (c # s) sub \<or> substring sub s)"

fun is_in :: "string \<Rightarrow> iterable \<Rightarrow> bool \<times> iterable" where
  "is_in n (Container xs) = (n \<in> set xs, Container xs)"
| "is_in n (Str s) = (substring n s, Str s)"
| "is_in n (Iterator xs) = (n \<in> set xs, Iterator (drop 1 (dropWhile (\<lambda>x. x \<noteq> n) xs)))"

text \<open>
  Lines 175 to 180. The test of \<^verbatim>\<open>boilerplate_args\<close> is the second operand of \<^verbatim>\<open>or\<close>: it is
  not evaluated for \<^verbatim>\<open>self\<close>.
\<close>

fun signature_loop :: "iterable \<Rightarrow> (string \<times> pyval option) list \<Rightarrow> inputs \<Rightarrow> inputs" where
  "signature_loop boilerplate_args [] inputs = inputs"
| "signature_loop boilerplate_args ((n, d) # ps) inputs =
     (if n = ''self'' then signature_loop boilerplate_args ps inputs
      else (let (found, boilerplate_args') = is_in n boilerplate_args
            in if found then signature_loop boilerplate_args' ps inputs
               else signature_loop boilerplate_args' ps
                      (AList.update n (new_input n d) inputs)))"

subsection \<open>The type hints\<close>

text \<open>\<^verbatim>\<open>[t.__name__ for t in ts]\<close>\<close>

fun names_of :: "hint list \<Rightarrow> exn + string list" where
  "names_of [] = Inr []"
| "names_of (t # ts) =
     (case dunder_name t of
        None \<Rightarrow> Inl AttributeError
      | Some n \<Rightarrow> (case names_of ts of Inl e \<Rightarrow> Inl e | Inr ns \<Rightarrow> Inr (n # ns)))"

text \<open>Lines 191 to 193: a generic alias gives its name and is replaced by its first argument.\<close>

definition unwrap_generic :: "hint \<Rightarrow> input_data \<Rightarrow> exn + hint \<times> input_data" where
  "unwrap_generic type_hint input_data =
     (if alias_of type_hint = GenericAlias
      then (case dunder_name type_hint of
              None \<Rightarrow> Inl AttributeError
            | Some n \<Rightarrow>
                (case item (get_args type_hint) 0 of
                   Inl e \<Rightarrow> Inl e
                 | Inr arg \<Rightarrow> Inr (arg, input_data\<lparr> generic_type := Some n \<rparr>)))
      else Inr (type_hint, input_data))"

text \<open>Lines 195 to 201.\<close>

definition record_type :: "hint \<Rightarrow> input_data \<Rightarrow> exn + input_data" where
  "record_type type_hint input_data =
     (if alias_of type_hint = UnionGenericAlias
      then (case names_of (get_args type_hint) of
              Inl e \<Rightarrow> Inl e
            | Inr ns \<Rightarrow> Inr (input_data\<lparr> type' := Some (TypeNames ns) \<rparr>))
      else (case dunder_name type_hint of
              None \<Rightarrow> Inl AttributeError
            | Some n \<Rightarrow>
                if n = ''Literal''
                then Inr (input_data\<lparr> type' := Some (TypeName ''Literal''),
                                      enum_items := Some (get_args type_hint) \<rparr>)
                else Inr (input_data\<lparr> type' := Some (TypeName n) \<rparr>)))"

text \<open>Lines 189 to 201, for a parameter that has a hint.\<close>

definition parse_type_hint :: "hint \<Rightarrow> input_data \<Rightarrow> exn + input_data" where
  "parse_type_hint type_hint input_data =
     (case unwrap_generic type_hint input_data of
        Inl e \<Rightarrow> Inl e
      | Inr (type_hint', input_data') \<Rightarrow> record_type type_hint' input_data')"

text \<open>Lines 184 to 201: the loop over \<^verbatim>\<open>inputs.keys()\<close>.\<close>

fun type_hints_loop :: "(string \<rightharpoonup> hint) \<Rightarrow> string list \<Rightarrow> inputs \<Rightarrow> exn + inputs" where
  "type_hints_loop hints [] inputs = Inr inputs"
| "type_hints_loop hints (input_name # input_names) inputs =
     (case hints input_name of
        None \<Rightarrow> type_hints_loop hints input_names inputs
      | Some type_hint \<Rightarrow>
          (case map_of inputs input_name of
             None \<Rightarrow> Inl KeyError
           | Some input_data \<Rightarrow>
               (case parse_type_hint type_hint input_data of
                  Inl e \<Rightarrow> Inl e
                | Inr input_data' \<Rightarrow>
                    type_hints_loop hints input_names
                      (AList.update input_name input_data' inputs))))"

subsection \<open>The docstring\<close>

text \<open>
  What the loop over the lines of the docstring changes: \<^verbatim>\<open>docs["name"]\<close>,
  \<^verbatim>\<open>docs["output"]\<close>, \<^verbatim>\<open>inputs\<close> and the local \<^verbatim>\<open>description\<close>.
\<close>

record parse_state =
  st_name :: "string option"
  st_output :: "(string \<times> string) option"
  st_inputs :: inputs
  st_description :: string

text \<open>Lines 213 to 216 and 218 to 221, after the test of the tag, for the tag's key.\<close>

definition tagged_line ::
  "string \<Rightarrow> (input_data \<Rightarrow> string \<Rightarrow> input_data) \<Rightarrow> string \<Rightarrow> parse_state \<Rightarrow> exn + parse_state"
where
  "tagged_line tag set_key line st =
     (case item (split CHR '':'' line) 1 of
        Inl e \<Rightarrow> Inl e
      | Inr field \<Rightarrow>
          (let param_name = replace tag [] (strip field)
           in case map_of (st_inputs st) param_name of
                None \<Rightarrow> Inr st
              | Some input_data \<Rightarrow>
                  (case item (split CHR '':'' line) 2 of
                     Inl e \<Rightarrow> Inl e
                   | Inr v \<Rightarrow>
                       Inr (st\<lparr> st_inputs :=
                                  AList.update param_name (set_key input_data (strip v))
                                    (st_inputs st) \<rparr>))))"

text \<open>Lines 208 to 225: the body of the loop, for line \<open>i\<close>.\<close>

definition parse_line :: "nat \<Rightarrow> string \<Rightarrow> parse_state \<Rightarrow> exn + parse_state" where
  "parse_line i line0 st =
     (let line = strip line0
      in if i = 0 then Inr (st\<lparr> st_name := Some line \<rparr>)
         else if startswith line '':return:'' then
           (case item (split CHR '':'' line) 2 of
              Inl e \<Rightarrow> Inl e
            | Inr n \<Rightarrow>
                (case item (split CHR '':'' line) 3 of
                   Inl e \<Rightarrow> Inl e
                 | Inr d \<Rightarrow> Inr (st\<lparr> st_output := Some (strip n, strip d) \<rparr>)))
         else if startswith line '':param'' then
           tagged_line ''param '' (\<lambda>input_data v. input_data\<lparr> description := Some v \<rparr>) line st
         else if startswith line '':filter_glob'' then
           tagged_line ''filter_glob '' (\<lambda>input_data v. input_data\<lparr> filter_glob := Some v \<rparr>)
             line st
         else if i = 2 then Inr (st\<lparr> st_description := st_description st @ line \<rparr>)
         else if i > 2 then
           Inr (st\<lparr> st_description := st_description st @ ''\<newline>'' @ line \<rparr>)
         else Inr st)"

text \<open>Line 207: \<^verbatim>\<open>for i, line in enumerate(...)\<close>, from index \<open>i\<close> on.\<close>

fun parse_lines :: "nat \<Rightarrow> string list \<Rightarrow> parse_state \<Rightarrow> exn + parse_state" where
  "parse_lines i [] st = Inr st"
| "parse_lines i (line # lines) st =
     (case parse_line i line st of
        Inl e \<Rightarrow> Inl e
      | Inr st' \<Rightarrow> parse_lines (Suc i) lines st')"

subsection \<open>The two entry points\<close>

text \<open>
  \<^verbatim>\<open>_extract_docs\<close>, in three parts: lines 171 to 180 (the loop over the signature, with
  \<^verbatim>\<open>boilerplate_args\<close> replaced by the empty list when it is \<^verbatim>\<open>None\<close>), lines 174 to 201
  (the signature and the type hints, each of which may raise), and the whole.
\<close>

definition signature_inputs :: "(string \<times> pyval option) list \<Rightarrow> iterable option \<Rightarrow> inputs" where
  "signature_inputs parameters boilerplate_args =
     signature_loop (case boilerplate_args of None \<Rightarrow> Container [] | Some it \<Rightarrow> it)
       parameters []"

definition hinted_inputs :: "py_method \<Rightarrow> iterable option \<Rightarrow> exn + inputs" where
  "hinted_inputs meth boilerplate_args =
     (case signature meth of
        Inl e \<Rightarrow> Inl e
      | Inr parameters \<Rightarrow>
          (case get_type_hints meth of
             Inl e \<Rightarrow> Inl e
           | Inr type_hints \<Rightarrow>
               type_hints_loop type_hints
                 (map fst (signature_inputs parameters boilerplate_args))
                 (signature_inputs parameters boilerplate_args)))"

definition extract_docs' :: "py_class \<Rightarrow> string \<Rightarrow> iterable option \<Rightarrow> exn + docs" where
  "extract_docs' cls method_name boilerplate_args =
     (case methods cls method_name of
        None \<Rightarrow> Inl AttributeError
      | Some meth \<Rightarrow>
          (case hinted_inputs meth boilerplate_args of
             Inl e \<Rightarrow> Inl e
           | Inr inputs \<Rightarrow>
               (case doc meth of
                  None \<Rightarrow>
                    Inr \<lparr> docs_class = cls, docs_name = None, docs_output = None,
                          docs_description = None, docs_inputs = inputs \<rparr>
                | Some d \<Rightarrow>
                    (case parse_lines 0 (split CHR ''\<newline>'' d)
                            \<lparr> st_name = None, st_output = None, st_inputs = inputs,
                              st_description = [] \<rparr> of
                       Inl e \<Rightarrow> Inl e
                     | Inr st \<Rightarrow>
                         Inr \<lparr> docs_class = cls, docs_name = st_name st,
                               docs_output = st_output st,
                               docs_description = Some (strip (st_description st)),
                               docs_inputs = st_inputs st \<rparr>))))"

text \<open>
  \<^verbatim>\<open>extract_docs\<close>. Executing the module file gives the module, here the classes it
  defines by name, or raises. What is printed is kept as a list of diagnostics.
\<close>

type_synonym submodule = "string \<rightharpoonup> py_class"

type_synonym loader = "string \<Rightarrow> exn + submodule"

datatype diagnostic =
    Printed exn
  | Could_not_load string exn

definition extract_docs ::
  "loader \<Rightarrow> string \<Rightarrow> string \<Rightarrow> string \<Rightarrow> iterable option \<Rightarrow>
     diagnostic list \<times> (exn + docs option)"
where
  "extract_docs exec_module submodule_name cls_name method_name boilerplate_args =
     (case exec_module submodule_name of
        Inl e \<Rightarrow>
          if e = ModuleNotFoundError then ([Could_not_load submodule_name e], Inr None)
          else ([], Inl e)
      | Inr submodule \<Rightarrow>
          (case (case submodule cls_name of
                   None \<Rightarrow> Inl AttributeError
                 | Some cls \<Rightarrow> extract_docs' cls method_name boilerplate_args) of
             Inr d \<Rightarrow> ([], Inr (Some d))
           | Inl e \<Rightarrow>
               if e = AttributeError then ([Printed e], Inr None)
               else if e = ModuleNotFoundError
               then ([Could_not_load submodule_name e], Inr None)
               else ([], Inl e)))"


subsection \<open>Example classes\<close>

text \<open>The plain classes \<^verbatim>\<open>str\<close>, \<^verbatim>\<open>int\<close> and \<^verbatim>\<open>NoneType\<close> as hints.\<close>

definition str_hint :: hint where
  "str_hint = Hint NoAlias (Some ''str'') []"

definition int_hint :: hint where
  "int_hint = Hint NoAlias (Some ''int'') []"

definition none_hint :: hint where
  "none_hint = Hint NoAlias (Some ''NoneType'') []"

text \<open>A class with \<^verbatim>\<open>def __init__(self, a: str, b: int = 5)\<close> and no docstring.\<close>

definition two_parameters :: py_class where
  "two_parameters =
     \<lparr> class_name = ''Patcher'',
       methods = [''__init__'' \<mapsto>
         \<lparr> signature = Inr [(''self'', None), (''a'', None), (''b'', Some (PInt 5))],
           get_type_hints = Inr [''a'' \<mapsto> str_hint, ''b'' \<mapsto> int_hint],
           doc = None \<rparr>] \<rparr>"

text \<open>
  A class with
  \<^verbatim>\<open>def __init__(self, file, logger, query: Union[str, None] = None,
  mode: Literal["x", "y"] = "x", names: list[str] = [], count: int = 1, extra=None)\<close>
  and a docstring in the micro-format, with a \<^verbatim>\<open>:return:\<close> line of four fields.
\<close>

definition documented_init :: py_method where
  "documented_init =
     \<lparr> signature =
         Inr [(''self'', None), (''file'', None), (''logger'', None), (''query'', Some PNone),
          (''mode'', Some (PStr ''x'')), (''names'', Some (PList [])), (''count'', Some (PInt 1)),
          (''extra'', Some PNone)],
       get_type_hints =
         Inr [''query'' \<mapsto> Hint UnionGenericAlias (Some ''Optional'') [str_hint, none_hint],
          ''mode'' \<mapsto> Hint NoAlias (Some ''Literal'') [Constant (PStr ''x''), Constant (PStr ''y'')],
          ''names'' \<mapsto> Hint GenericAlias (Some ''list'') [str_hint],
          ''count'' \<mapsto> int_hint],
       doc = Some ''Select elements\<newline>\<newline>    Keeps what the query selects.\<newline>\<newline>    :param query: What to keep\<newline>    :param other: Not a parameter\<newline>    :filter_glob names: *.ifc\<newline>    :return: model: The patched model\<newline>    '' \<rparr>"

definition documented :: py_class where
  "documented = \<lparr> class_name = ''Patcher'', methods = [''__init__'' \<mapsto> documented_init] \<rparr>"

text \<open>The schema of its parameters, with \<^verbatim>\<open>file\<close> and \<^verbatim>\<open>logger\<close> excluded.\<close>

definition documented_schema :: inputs where
  "documented_schema =
     [(''query'',
       \<lparr> name = ''query'', default = None, generic_type = None,
         type' = Some (TypeNames [''str'', ''NoneType'']), enum_items = None,
         description = Some ''What to keep'', filter_glob = None \<rparr>),
      (''mode'',
       \<lparr> name = ''mode'', default = Some (PStr ''x''), generic_type = None,
         type' = Some (TypeName ''Literal''),
         enum_items = Some [Constant (PStr ''x''), Constant (PStr ''y'')],
         description = None, filter_glob = None \<rparr>),
      (''names'',
       \<lparr> name = ''names'', default = None, generic_type = Some ''list'',
         type' = Some (TypeName ''str''), enum_items = None,
         description = None, filter_glob = Some ''*.ifc'' \<rparr>),
      (''count'',
       \<lparr> name = ''count'', default = Some (PInt 1), generic_type = None,
         type' = Some (TypeName ''int''), enum_items = None,
         description = None, filter_glob = None \<rparr>),
      (''extra'',
       \<lparr> name = ''extra'', default = None, generic_type = None, type' = None,
         enum_items = None, description = None, filter_glob = None \<rparr>)]"

text \<open>
  A class with \<^verbatim>\<open>def __init__(self, file, logger, a: str = "x")\<close> whose docstring is
  one \<^verbatim>\<open>:param\<close> line.
\<close>

definition param_first :: py_class where
  "param_first =
     \<lparr> class_name = ''Patcher'',
       methods = [''__init__'' \<mapsto>
         \<lparr> signature = Inr [(''self'', None), (''file'', None), (''logger'', None),
             (''a'', Some (PStr ''x''))],
           get_type_hints = Inr [''a'' \<mapsto> str_hint],
           doc = Some '':param a: The first'' \<rparr>] \<rparr>"

text \<open>
  A class with \<^verbatim>\<open>def __init__(self, file, logger)\<close> whose docstring has a \<^verbatim>\<open>:return:\<close> line
  in the usual Sphinx form, the tag and a text.
\<close>

definition sphinx_return :: py_class where
  "sphinx_return =
     \<lparr> class_name = ''Patcher'',
       methods = [''__init__'' \<mapsto>
         \<lparr> signature = Inr [(''self'', None), (''file'', None), (''logger'', None)],
           get_type_hints = Inr Map.empty,
           doc = Some ''Fix the model\<newline>\<newline>    :return: The patched model\<newline>    '' \<rparr>] \<rparr>"

text \<open>
  A class with \<^verbatim>\<open>def __init__(self, file, logger)\<close> whose docstring ends with the bare
  tag \<^verbatim>\<open>:return:\<close>.
\<close>

definition bare_return :: py_class where
  "bare_return =
     \<lparr> class_name = ''Patcher'',
       methods = [''__init__'' \<mapsto>
         \<lparr> signature = Inr [(''self'', None), (''file'', None), (''logger'', None)],
           get_type_hints = Inr Map.empty,
           doc = Some ''Purge the model\<newline>    :return:'' \<rparr>] \<rparr>"

text \<open>
  A class with \<^verbatim>\<open>def __init__(self, file, logger, a: str, b: int = 5)\<close> and no docstring.
\<close>

definition with_boilerplate :: py_class where
  "with_boilerplate =
     \<lparr> class_name = ''Patcher'',
       methods = [''__init__'' \<mapsto>
         \<lparr> signature = Inr [(''self'', None), (''file'', None), (''logger'', None),
             (''a'', None), (''b'', Some (PInt 5))],
           get_type_hints = Inr [''a'' \<mapsto> str_hint, ''b'' \<mapsto> int_hint],
           doc = None \<rparr>] \<rparr>"

text \<open>
  The hint \<^verbatim>\<open>str | None\<close>, a \<^verbatim>\<open>types.UnionType\<close>: an instance of neither alias class, and
  without \<^verbatim>\<open>__name__\<close>. The hint \<^verbatim>\<open>typing.List[str]\<close>: an instance of neither alias class,
  with the name \<^verbatim>\<open>List\<close>.
\<close>

definition str_or_none :: hint where
  "str_or_none = Hint NoAlias None [str_hint, none_hint]"

definition typing_List_str :: hint where
  "typing_List_str = Hint NoAlias (Some ''List'') [str_hint]"

text \<open>A class with \<^verbatim>\<open>def __init__(self, file, logger, query: str | None)\<close>.\<close>

definition union_operator :: py_class where
  "union_operator =
     \<lparr> class_name = ''Patcher'',
       methods = [''__init__'' \<mapsto>
         \<lparr> signature = Inr [(''self'', None), (''file'', None), (''logger'', None),
             (''query'', None)],
           get_type_hints = Inr [''query'' \<mapsto> str_or_none],
           doc = None \<rparr>] \<rparr>"

text \<open>A class with \<^verbatim>\<open>def __init__(self, file, logger, names: typing.List[str])\<close>.\<close>

definition typing_container :: py_class where
  "typing_container =
     \<lparr> class_name = ''Patcher'',
       methods = [''__init__'' \<mapsto>
         \<lparr> signature = Inr [(''self'', None), (''file'', None), (''logger'', None),
             (''names'', None)],
           get_type_hints = Inr [''names'' \<mapsto> typing_List_str],
           doc = None \<rparr>] \<rparr>"

text \<open>
  A class with \<^verbatim>\<open>def __init__(self, file, logger)\<close> whose docstring is one line, a
  \<^verbatim>\<open>:return:\<close> line in the usual Sphinx form.
\<close>

definition return_first :: py_class where
  "return_first =
     \<lparr> class_name = ''Patcher'',
       methods = [''__init__'' \<mapsto>
         \<lparr> signature = Inr [(''self'', None), (''file'', None), (''logger'', None)],
           get_type_hints = Inr Map.empty,
           doc = Some '':return: The patched model'' \<rparr>] \<rparr>"

text \<open>
  A class with \<^verbatim>\<open>def __init__(self, file, logger, query: str | None)\<close> whose docstring has
  a \<^verbatim>\<open>:return:\<close> line in the usual Sphinx form after the title.
\<close>

definition union_operator_return :: py_class where
  "union_operator_return =
     \<lparr> class_name = ''Patcher'',
       methods = [''__init__'' \<mapsto>
         \<lparr> signature = Inr [(''self'', None), (''file'', None), (''logger'', None),
             (''query'', None)],
           get_type_hints = Inr [''query'' \<mapsto> str_or_none],
           doc = Some ''Fix the model\<newline>\<newline>    :return: The patched model\<newline>    '' \<rparr>] \<rparr>"

text \<open>
  A class with \<^verbatim>\<open>def __init__(self, file, logger, query: "Query")\<close>, where the name
  \<^verbatim>\<open>Query\<close> is not defined in the module: \<^verbatim>\<open>typing.get_type_hints\<close> raises \<^verbatim>\<open>NameError\<close>.
\<close>

definition unresolved_hint :: py_class where
  "unresolved_hint =
     \<lparr> class_name = ''Patcher'',
       methods = [''__init__'' \<mapsto>
         \<lparr> signature = Inr [(''self'', None), (''file'', None), (''logger'', None),
             (''query'', None)],
           get_type_hints = Inl (Raised ''NameError''),
           doc = None \<rparr>] \<rparr>"

text \<open>
  The recipe files of the examples. \<^verbatim>\<open>NeedsNumpy\<close> imports a module that is not
  installed; for any other name there is no file.
\<close>

definition example_loader :: loader where
  "example_loader submodule_name =
     (if submodule_name = ''TwoParameters'' then Inr [''Patcher'' \<mapsto> two_parameters]
      else if submodule_name = ''Documented'' then Inr [''Patcher'' \<mapsto> documented]
      else if submodule_name = ''SphinxReturn'' then Inr [''Patcher'' \<mapsto> sphinx_return]
      else if submodule_name = ''BareReturn'' then Inr [''Patcher'' \<mapsto> bare_return]
      else if submodule_name = ''ReturnFirst'' then Inr [''Patcher'' \<mapsto> return_first]
      else if submodule_name = ''UnionOperatorReturn''
        then Inr [''Patcher'' \<mapsto> union_operator_return]
      else if submodule_name = ''UnresolvedHint'' then Inr [''Patcher'' \<mapsto> unresolved_hint]
      else if submodule_name = ''NeedsNumpy'' then Inl ModuleNotFoundError
      else Inl (Raised ''FileNotFoundError''))"


section \<open>Properties of the execution engine\<close>

lemma basic_config_no_Construct: "filter is_Construct (basic_config args) = []"
  by (simp add: basic_config_def)

lemma before_validation_no_Construct: "filter is_Construct (before_validation args) = []"
  by (simp add: before_validation_def basic_config_no_Construct)

lemma resolved_policy:
  assumes "import_module env (recipe args) = Inr \<lparr> Patcher_class = Some P \<rparr>"
  shows "get_patch_input_argument_use env (recipe args) = Inr (policy P)"
  using assms by (simp add: get_patch_input_argument_use_def)

text \<open>The three ways through the validation, for a request that reaches it.\<close>

lemma execute_input_required:
  assumes "configure env args = None"
    and "import_module env (recipe args) = Inr \<lparr> Patcher_class = Some P \<rparr>"
    and "policy P = ''REQUIRED''" and "falsy (get (input args))"
  shows "execute env args = (before_validation args, Inl (input_required (recipe args)))"
  using assms by (simp add: execute_def resolved_policy before_validation_def)

lemma execute_file_required:
  assumes "configure env args = None"
    and "import_module env (recipe args) = Inr \<lparr> Patcher_class = Some P \<rparr>"
    and "policy P \<noteq> ''REQUIRED''" and "\<not> contains (file' args)"
  shows "execute env args = (before_validation args, Inl (file_required (recipe args)))"
  using assms by (simp add: execute_def resolved_policy before_validation_def)

lemma execute_past_validation:
  assumes "configure env args = None"
    and "import_module env (recipe args) = Inr \<lparr> Patcher_class = Some P \<rparr>"
    and "\<not> (policy P = ''REQUIRED'' \<and> falsy (get (input args)))"
    and "\<not> (policy P \<noteq> ''REQUIRED'' \<and> \<not> contains (file' args))"
  shows "execute env args =
           (before_validation args @ fst (run_patcher P args), snd (run_patcher P args))"
  using assms
  by (auto simp: execute_def resolved_policy before_validation_def split: prod.splits)

lemma run_patcher_no_ValueError_before_call:
  "\<not> (is_ValueError (snd (run_patcher P args)) \<and>
      filter is_Construct (fst (run_patcher P args)) = [])"
  by (auto simp: run_patcher_def positional_def split: sum.splits prod.splits entry.splits)

lemma execute_passed:
  assumes "configure env args = None"
    and "import_module env (recipe args) = Inr \<lparr> Patcher_class = Some P \<rparr>"
  shows "\<not> validation_error (execute env args) \<longleftrightarrow>
           \<not> (policy P = ''REQUIRED'' \<and> falsy (get (input args))) \<and>
           \<not> (policy P \<noteq> ''REQUIRED'' \<and> \<not> contains (file' args))"
proof (cases "policy P = ''REQUIRED'' \<and> falsy (get (input args))")
  case True
  then show ?thesis
    using execute_input_required [OF assms]
    by (simp add: validation_error_def input_required_def before_validation_no_Construct)
next
  case a: False
  show ?thesis
  proof (cases "policy P \<noteq> ''REQUIRED'' \<and> \<not> contains (file' args)")
    case True
    then show ?thesis
      using execute_file_required [OF assms]
      by (simp add: validation_error_def file_required_def before_validation_no_Construct)
  next
    case False
    then show ?thesis
      using execute_past_validation [OF assms a False]
        run_patcher_no_ValueError_before_call [of P args] a
      by (simp add: validation_error_def before_validation_no_Construct)
  qed
qed

subsection \<open>Validation\<close>

text \<open>
  Claim C1, as amended. Take a request whose logging configuration does not raise and
  whose recipe module is imported and has the class \<^verbatim>\<open>Patcher\<close>. If the policy is
  \<^verbatim>\<open>REQUIRED\<close>, \<^verbatim>\<open>execute\<close> raises its validation error exactly when \<^verbatim>\<open>args.get("input")\<close>
  is \<^verbatim>\<open>None\<close> (the key is missing or maps to \<^verbatim>\<open>None\<close>) or the empty string, whatever the
  \<^verbatim>\<open>file\<close> entry is. For every other policy it raises exactly when the request has no
  \<^verbatim>\<open>file\<close> key, whatever the \<^verbatim>\<open>input\<close> entry is; a \<^verbatim>\<open>file\<close> key that maps to \<^verbatim>\<open>None\<close> counts
  as present. The validation error is raised before the recipe is instantiated: the
  trace ends with the two imports. When there is no validation error, \<^verbatim>\<open>execute\<close> goes on
  with lines 100 to 107.
\<close>

theorem execute_validation:
  assumes "configure env args = None"
    and "import_module env (recipe args) = Inr \<lparr> Patcher_class = Some P \<rparr>"
  shows "(policy P = ''REQUIRED'' \<longrightarrow>
            (validation_error (execute env args) \<longleftrightarrow> falsy (get (input args)))) \<and>
         (policy P \<noteq> ''REQUIRED'' \<longrightarrow>
            (validation_error (execute env args) \<longleftrightarrow> \<not> contains (file' args))) \<and>
         (validation_error (execute env args) \<longrightarrow>
            execute env args =
              (before_validation args,
               Inl (if policy P = ''REQUIRED'' then input_required (recipe args)
                    else file_required (recipe args)))) \<and>
         (\<not> validation_error (execute env args) \<longrightarrow>
            execute env args =
              (before_validation args @ fst (run_patcher P args), snd (run_patcher P args)))"
proof -
  note passed = execute_passed [OF assms]
  have required: "validation_error (execute env args) \<longleftrightarrow> falsy (get (input args))"
    if "policy P = ''REQUIRED''"
    using passed that by auto
  have other: "validation_error (execute env args) \<longleftrightarrow> \<not> contains (file' args)"
    if "policy P \<noteq> ''REQUIRED''"
    using passed that by auto
  have failed: "execute env args =
      (before_validation args,
       Inl (if policy P = ''REQUIRED'' then input_required (recipe args)
            else file_required (recipe args)))"
    if "validation_error (execute env args)"
  proof (cases "policy P = ''REQUIRED''")
    case True
    with that required have "falsy (get (input args))" by simp
    with True show ?thesis using execute_input_required [OF assms] by simp
  next
    case False
    with that other have "\<not> contains (file' args)" by simp
    with False show ?thesis using execute_file_required [OF assms] by simp
  qed
  have proceeds: "execute env args =
      (before_validation args @ fst (run_patcher P args), snd (run_patcher P args))"
    if "\<not> validation_error (execute env args)"
    using that passed execute_past_validation [OF assms] by blast
  from required other failed proceeds show ?thesis by blast
qed

theorem execute_validation_witness:
  "validation_error
     (execute example_environment
        \<lparr> recipe = ''Migrate'', file' = Val 1, input = Val [], log = Val ''patch.log'',
          arguments = Missing \<rparr>) \<and>
   \<not> validation_error
     (execute example_environment
        \<lparr> recipe = ''Migrate'', file' = Missing, input = Val ''in.ifc'', log = Missing,
          arguments = Missing \<rparr>) \<and>
   validation_error
     (execute example_environment
        \<lparr> recipe = ''ExtractElements'', file' = Missing, input = Val ''in.ifc'', log = Missing,
          arguments = Missing \<rparr>) \<and>
   \<not> validation_error
     (execute example_environment
        \<lparr> recipe = ''ExtractElements'', file' = Val 1, input = Missing, log = Missing,
          arguments = Val [PStr ''.IfcWall''] \<rparr>)"
proof -
  let ?a = "\<lparr> recipe = ''Migrate'', file' = Val 1, input = Val [], log = Val ''patch.log'',
          arguments = Missing \<rparr>"
  let ?b = "\<lparr> recipe = ''Migrate'', file' = Missing, input = Val ''in.ifc'', log = Missing,
          arguments = Missing \<rparr>"
  let ?c = "\<lparr> recipe = ''ExtractElements'', file' = Missing, input = Val ''in.ifc'', log = Missing,
          arguments = Missing \<rparr>"
  let ?d = "\<lparr> recipe = ''ExtractElements'', file' = Val 1, input = Missing, log = Missing,
          arguments = Val [PStr ''.IfcWall''] \<rparr>"
  have conf: "configure example_environment ?a = None" "configure example_environment ?b = None"
    "configure example_environment ?c = None" "configure example_environment ?d = None"
    by (simp_all add: configure_def example_environment_def)
  have m: "import_module example_environment ''Migrate'' = Inr \<lparr> Patcher_class = Some migrate \<rparr>"
    and e: "import_module example_environment ''ExtractElements'' =
      Inr \<lparr> Patcher_class = Some extract_elements \<rparr>"
    by (simp_all add: example_environment_def)
  have pm: "policy migrate = ''REQUIRED''" and pe: "policy extract_elements \<noteq> ''REQUIRED''"
    by (simp_all add: policy_def migrate_def extract_elements_def)
  have "validation_error (execute example_environment ?a)"
    using execute_validation [of example_environment ?a migrate] conf(1) m pm by simp
  moreover have "\<not> validation_error (execute example_environment ?b)"
    using execute_validation [of example_environment ?b migrate] conf(2) m pm by simp
  moreover have "validation_error (execute example_environment ?c)"
    using execute_validation [of example_environment ?c extract_elements] conf(3) e pe by simp
  moreover have "\<not> validation_error (execute example_environment ?d)"
    using execute_validation [of example_environment ?d extract_elements] conf(4) e pe by simp
  ultimately show ?thesis by (intro conjI)
qed

text \<open>
  The claim as stated fails in two ways. With "the request carries no document handle" as
  the condition of the second branch, it fails on a request whose \<^verbatim>\<open>file\<close> key maps to
  \<^verbatim>\<open>None\<close>: the policy is \<^verbatim>\<open>IGNORED\<close>, the request carries no document
  (\<^verbatim>\<open>args.get("file")\<close> is \<^verbatim>\<open>None\<close>), and \<^verbatim>\<open>execute\<close> raises nothing and runs the recipe. And
  it fails on a request with a log file that cannot be opened: the policy is \<^verbatim>\<open>REQUIRED\<close>,
  the raw input path is absent, and \<^verbatim>\<open>execute\<close> raises the \<^verbatim>\<open>FileNotFoundError\<close> of
  \<^verbatim>\<open>logging.basicConfig\<close>, not a validation error.
\<close>

theorem execute_null_file_counterexample:
  "policy extract_elements = ''IGNORED'' \<and>
   get (file' \<lparr> recipe = ''ExtractElements'', file' = Null, input = Missing, log = Missing,
          arguments = Val [PStr ''.IfcWall''] \<rparr>) = None \<and>
   execute example_environment
     \<lparr> recipe = ''ExtractElements'', file' = Null, input = Missing, log = Missing,
       arguments = Val [PStr ''.IfcWall''] \<rparr> =
     ([Import ''ExtractElements'', Import ''ExtractElements'',
       Construct [PNone, PNone, PLogger, PStr ''.IfcWall''], Patch], Inr PNone) \<and>
   policy migrate = ''REQUIRED'' \<and>
   falsy (get (input \<lparr> recipe = ''Migrate'', file' = Missing, input = Missing,
                  log = Val ''/missing/patch.log'', arguments = Missing \<rparr>)) \<and>
   execute example_environment
     \<lparr> recipe = ''Migrate'', file' = Missing, input = Missing,
       log = Val ''/missing/patch.log'', arguments = Missing \<rparr> =
     ([BasicConfig (Some ''/missing/patch.log'')], Inl (Raised ''FileNotFoundError''))"
  by (simp add: policy_def get_patch_input_argument_use_def example_environment_def
      extract_elements_def migrate_def execute_def configure_def run_patcher_def
      positional_def base_parameters_def patch_and_read_def basic_config_def)

subsection \<open>The constructor call\<close>

lemma run_patcher_call:
  assumes "positional P args = Inr ps"
  shows "run_patcher P args =
           (case init P ps of
              Inl e \<Rightarrow> ([Construct ps], Inl e)
            | Inr patcher \<Rightarrow>
                (Construct ps # fst (patch_and_read P patcher),
                 snd (patch_and_read P patcher)))"
  using assms by (simp add: run_patcher_def split: sum.splits prod.splits)

lemma positional_list:
  assumes "arguments args \<noteq> Null"
  shows "positional P args =
           Inr ([str_val (get (input args)), file_val (get (file' args)), PLogger] @
                (if init_doc P \<noteq> None
                 then (case arguments args of Val xs \<Rightarrow> xs | _ \<Rightarrow> [])
                 else [PList (case arguments args of Val xs \<Rightarrow> xs | _ \<Rightarrow> [])]))"
  using assms by (cases "arguments args") (simp_all add: positional_def base_parameters_def)

text \<open>
  Claim C3, as amended. Take a request whose logging configuration does not raise, whose
  recipe module is imported and has the class \<^verbatim>\<open>Patcher\<close>, which passes validation, and
  whose \<^verbatim>\<open>arguments\<close> entry is missing (then it is the empty list) or a list. Then
  \<^verbatim>\<open>execute\<close> calls the constructor, with the raw input path, the document handle and the
  logger as the first three positional parameters, followed by the elements of
  \<^verbatim>\<open>arguments\<close> one by one if \<^verbatim>\<open>__init__\<close> has a docstring, and by \<^verbatim>\<open>arguments\<close> as one
  list-valued parameter if it has none. What \<^verbatim>\<open>execute\<close> returns or raises is what this
  call raises or, if it returns an instance, what lines 105 to 107 give on that instance.
\<close>

theorem execute_dispatch:
  assumes "configure env args = None"
    and "import_module env (recipe args) = Inr \<lparr> Patcher_class = Some P \<rparr>"
    and "\<not> validation_error (execute env args)"
    and "arguments args \<noteq> Null"
  shows "execute env args =
           (let ps = [str_val (get (input args)), file_val (get (file' args)), PLogger] @
                     (if init_doc P \<noteq> None
                      then (case arguments args of Val xs \<Rightarrow> xs | _ \<Rightarrow> [])
                      else [PList (case arguments args of Val xs \<Rightarrow> xs | _ \<Rightarrow> [])])
            in case init P ps of
                 Inl e \<Rightarrow> (before_validation args @ [Construct ps], Inl e)
               | Inr patcher \<Rightarrow>
                   (before_validation args @ Construct ps # fst (patch_and_read P patcher),
                    snd (patch_and_read P patcher)))"
proof -
  define ps where "ps = [str_val (get (input args)), file_val (get (file' args)), PLogger] @
      (if init_doc P \<noteq> None
       then (case arguments args of Val xs \<Rightarrow> xs | _ \<Rightarrow> [])
       else [PList (case arguments args of Val xs \<Rightarrow> xs | _ \<Rightarrow> [])])"
  have ex: "execute env args =
      (before_validation args @ fst (run_patcher P args), snd (run_patcher P args))"
    using execute_passed [OF assms(1,2)] assms(3) execute_past_validation [OF assms(1,2)]
    by blast
  have "positional P args = Inr ps"
    unfolding ps_def using assms(4) by (rule positional_list)
  then have run: "run_patcher P args =
      (case init P ps of
         Inl e \<Rightarrow> ([Construct ps], Inl e)
       | Inr patcher \<Rightarrow>
           (Construct ps # fst (patch_and_read P patcher), snd (patch_and_read P patcher)))"
    by (rule run_patcher_call)
  have "execute env args =
      (case init P ps of
         Inl e \<Rightarrow> (before_validation args @ [Construct ps], Inl e)
       | Inr patcher \<Rightarrow>
           (before_validation args @ Construct ps # fst (patch_and_read P patcher),
            snd (patch_and_read P patcher)))"
    unfolding ex run by (cases "init P ps") simp_all
  then show ?thesis
    unfolding ps_def Let_def .
qed

theorem execute_dispatch_witness:
  "execute example_environment
     \<lparr> recipe = ''ExtractElements'', file' = Val 7, input = Missing, log = Val ''p.log'',
       arguments = Val [PStr ''.IfcWall''] \<rparr> =
     ([BasicConfig (Some ''p.log''), Import ''ExtractElements'', Import ''ExtractElements'',
       Construct [PNone, PFile 7, PLogger, PStr ''.IfcWall''], Patch], Inr (PFile 7)) \<and>
   execute example_environment
     \<lparr> recipe = ''Migrate'', file' = Missing, input = Val ''in.ifc'', log = Missing,
       arguments = Val [PStr ''IFC4''] \<rparr> =
     ([Import ''Migrate'', Import ''Migrate'',
       Construct [PStr ''in.ifc'', PNone, PLogger, PList [PStr ''IFC4'']], Patch],
      Inr (PStr ''ISO-10303-21;''))"
proof -
  let ?a = "\<lparr> recipe = ''ExtractElements'', file' = Val 7, input = Missing, log = Val ''p.log'',
          arguments = Val [PStr ''.IfcWall''] \<rparr>"
  let ?b = "\<lparr> recipe = ''Migrate'', file' = Missing, input = Val ''in.ifc'', log = Missing,
          arguments = Val [PStr ''IFC4''] \<rparr>"
  have ca: "configure example_environment ?a = None"
    and cb: "configure example_environment ?b = None"
    by (simp_all add: configure_def example_environment_def)
  have a: "import_module example_environment (recipe ?a) =
      Inr \<lparr> Patcher_class = Some extract_elements \<rparr>"
    and b: "import_module example_environment (recipe ?b) = Inr \<lparr> Patcher_class = Some migrate \<rparr>"
    by (simp_all add: example_environment_def)
  have pa: "\<not> validation_error (execute example_environment ?a)"
    using execute_passed [OF ca a] by (simp add: policy_def extract_elements_def)
  have pb: "\<not> validation_error (execute example_environment ?b)"
    using execute_passed [OF cb b] by (simp add: policy_def migrate_def)
  have na: "arguments ?a \<noteq> Null" and nb: "arguments ?b \<noteq> Null" by simp_all
  have "execute example_environment ?a =
     ([BasicConfig (Some ''p.log''), Import ''ExtractElements'', Import ''ExtractElements'',
       Construct [PNone, PFile 7, PLogger, PStr ''.IfcWall''], Patch], Inr (PFile 7))"
    unfolding execute_dispatch [OF ca a pa na]
    by (simp add: extract_elements_def patch_and_read_def before_validation_def
        basic_config_def)
  moreover have "execute example_environment ?b =
     ([Import ''Migrate'', Import ''Migrate'',
       Construct [PStr ''in.ifc'', PNone, PLogger, PList [PStr ''IFC4'']], Patch],
      Inr (PStr ''ISO-10303-21;''))"
    unfolding execute_dispatch [OF cb b pb nb]
    by (simp add: migrate_def patch_and_read_def before_validation_def basic_config_def)
  ultimately show ?thesis by (intro conjI)
qed

text \<open>
  The claim as stated fails on two requests for a recipe whose constructor has a
  docstring, neither of which meets a validation error. When the \<^verbatim>\<open>arguments\<close> key maps to
  \<^verbatim>\<open>None\<close>, \<^verbatim>\<open>*arguments\<close> raises \<^verbatim>\<open>TypeError\<close> and the constructor is not called. When the
  log file cannot be opened, \<^verbatim>\<open>execute\<close> raises the \<^verbatim>\<open>FileNotFoundError\<close> of
  \<^verbatim>\<open>logging.basicConfig\<close> before anything else, and the constructor is not called.
\<close>

theorem execute_spread_none_counterexample:
  "\<not> validation_error
      (execute example_environment
         \<lparr> recipe = ''ExtractElements'', file' = Val 7, input = Missing, log = Missing,
           arguments = Null \<rparr>) \<and>
   execute example_environment
     \<lparr> recipe = ''ExtractElements'', file' = Val 7, input = Missing, log = Missing,
       arguments = Null \<rparr> =
     ([Import ''ExtractElements'', Import ''ExtractElements''], Inl TypeError) \<and>
   \<not> validation_error
      (execute example_environment
         \<lparr> recipe = ''ExtractElements'', file' = Val 7, input = Missing,
           log = Val ''/missing/patch.log'', arguments = Val [PStr ''.IfcWall''] \<rparr>) \<and>
   execute example_environment
     \<lparr> recipe = ''ExtractElements'', file' = Val 7, input = Missing,
       log = Val ''/missing/patch.log'', arguments = Val [PStr ''.IfcWall''] \<rparr> =
     ([BasicConfig (Some ''/missing/patch.log'')], Inl (Raised ''FileNotFoundError''))"
  by (simp add: validation_error_def policy_def get_patch_input_argument_use_def
      example_environment_def extract_elements_def execute_def configure_def run_patcher_def
      positional_def basic_config_def)

subsection \<open>The result\<close>

lemma patch_and_read_result:
  assumes "patch P patcher = Inr patcher'"
  shows "snd (patch_and_read P patcher) =
           (case attr_file patcher' of
              None \<Rightarrow> Inl AttributeError
            | Some f \<Rightarrow> Inr (case attr_file_patched patcher' of Some p \<Rightarrow> p | None \<Rightarrow> f))"
  using assms by (simp add: patch_and_read_def)

text \<open>
  Claim C4. The code breaks the claim on an instance that has \<^verbatim>\<open>file_patched\<close> and no
  \<^verbatim>\<open>file\<close>. The constructor of the recipe \<^verbatim>\<open>Convert\<close> returns an instance without
  \<^verbatim>\<open>file\<close>, \<^verbatim>\<open>patch\<close> sets \<^verbatim>\<open>file_patched\<close> on it, and \<^verbatim>\<open>execute\<close> raises \<^verbatim>\<open>AttributeError\<close>
  instead of returning \<^verbatim>\<open>file_patched\<close>, because the default \<^verbatim>\<open>patcher.file\<close> of the
  \<^verbatim>\<open>getattr\<close> is read first. (On an instance that has \<^verbatim>\<open>file\<close>, lines 105 to 107 give
  \<^verbatim>\<open>file_patched\<close> when it is there and \<^verbatim>\<open>file\<close> otherwise: \<open>patch_and_read_result\<close>.)
\<close>

theorem execute_file_patched_only:
  "init convert [PStr ''in.ifc'', PNone, PLogger] =
     Inr \<lparr> attr_file = None, attr_file_patched = None, state = [PStr ''in.ifc''] \<rparr> \<and>
   patch convert \<lparr> attr_file = None, attr_file_patched = None, state = [PStr ''in.ifc''] \<rparr> =
     Inr \<lparr> attr_file = None, attr_file_patched = Some (PStr ''/tmp/out.sqlite''),
           state = [PStr ''in.ifc''] \<rparr> \<and>
   execute example_environment
     \<lparr> recipe = ''Convert'', file' = Missing, input = Val ''in.ifc'', log = Missing,
       arguments = Missing \<rparr> =
     ([Import ''Convert'', Import ''Convert'', Construct [PStr ''in.ifc'', PNone, PLogger],
       Patch], Inl AttributeError)"
  by (simp add: execute_def example_environment_def convert_def policy_def
      get_patch_input_argument_use_def configure_def run_patcher_def positional_def
      base_parameters_def patch_and_read_def basic_config_def)

subsection \<open>A document entry that holds no document\<close>

text \<open>
  Claim C9, as amended. Take a request whose logging configuration does not raise, whose
  recipe module is imported and has the class \<^verbatim>\<open>Patcher\<close> with a policy other than
  \<^verbatim>\<open>REQUIRED\<close>, whose \<^verbatim>\<open>file\<close> key is present and maps to \<^verbatim>\<open>None\<close>, and whose \<^verbatim>\<open>arguments\<close>
  entry is missing or a list. The request passes validation, and the constructor is
  called with \<^verbatim>\<open>None\<close> as its document parameter; what \<^verbatim>\<open>execute\<close> returns or raises is
  what this call raises or, if it returns an instance, what lines 105 to 107 give on
  that instance.
\<close>

theorem execute_null_file:
  assumes "configure env args = None"
    and "import_module env (recipe args) = Inr \<lparr> Patcher_class = Some P \<rparr>"
    and "policy P \<noteq> ''REQUIRED''"
    and "file' args = Null"
    and "arguments args \<noteq> Null"
  shows "\<not> validation_error (execute env args) \<and>
         (\<exists>rest.
            execute env args =
              (case init P (str_val (get (input args)) # PNone # PLogger # rest) of
                 Inl e \<Rightarrow>
                   (before_validation args @
                      [Construct (str_val (get (input args)) # PNone # PLogger # rest)],
                    Inl e)
               | Inr patcher \<Rightarrow>
                   (before_validation args @
                      Construct (str_val (get (input args)) # PNone # PLogger # rest) #
                      fst (patch_and_read P patcher),
                    snd (patch_and_read P patcher))))"
proof -
  have passed: "\<not> validation_error (execute env args)"
    using execute_passed [OF assms(1,2)] assms(3,4) by simp
  define rest where "rest =
      (if init_doc P \<noteq> None
       then (case arguments args of Val xs \<Rightarrow> xs | _ \<Rightarrow> [])
       else [PList (case arguments args of Val xs \<Rightarrow> xs | _ \<Rightarrow> [])])"
  have "execute env args =
      (case init P (str_val (get (input args)) # PNone # PLogger # rest) of
         Inl e \<Rightarrow>
           (before_validation args @
              [Construct (str_val (get (input args)) # PNone # PLogger # rest)],
            Inl e)
       | Inr patcher \<Rightarrow>
           (before_validation args @
              Construct (str_val (get (input args)) # PNone # PLogger # rest) #
              fst (patch_and_read P patcher),
            snd (patch_and_read P patcher)))"
  proof -
    have eq: "[str_val (get (input args)), file_val (get (file' args)), PLogger] @
        (if init_doc P \<noteq> None
         then (case arguments args of Val xs \<Rightarrow> xs | _ \<Rightarrow> [])
         else [PList (case arguments args of Val xs \<Rightarrow> xs | _ \<Rightarrow> [])]) =
        str_val (get (input args)) # PNone # PLogger # rest"
      unfolding rest_def by (simp add: assms(4))
    show ?thesis
      by (rule execute_dispatch [OF assms(1,2) passed assms(5), unfolded Let_def eq])
  qed
  with passed show ?thesis by blast
qed

theorem execute_null_file_witness:
  "\<not> validation_error
      (execute example_environment
        \<lparr> recipe = ''ExtractElements'', file' = Null, input = Val ''in.ifc'', log = Missing,
          arguments = Val [PStr ''.IfcSlab''] \<rparr>) \<and>
   init extract_elements [PStr ''in.ifc'', PNone, PLogger, PStr ''.IfcSlab''] =
     Inr \<lparr> attr_file = Some PNone, attr_file_patched = None, state = [PStr ''.IfcSlab''] \<rparr> \<and>
   execute example_environment
     \<lparr> recipe = ''ExtractElements'', file' = Null, input = Val ''in.ifc'', log = Missing,
       arguments = Val [PStr ''.IfcSlab''] \<rparr> =
     ([Import ''ExtractElements'', Import ''ExtractElements'',
       Construct [PStr ''in.ifc'', PNone, PLogger, PStr ''.IfcSlab''], Patch], Inr PNone)"
proof -
  let ?a = "\<lparr> recipe = ''ExtractElements'', file' = Null, input = Val ''in.ifc'', log = Missing,
          arguments = Val [PStr ''.IfcSlab''] \<rparr>"
  have c: "configure example_environment ?a = None"
    by (simp add: configure_def)
  have r: "import_module example_environment (recipe ?a) =
      Inr \<lparr> Patcher_class = Some extract_elements \<rparr>"
    by (simp add: example_environment_def)
  have p: "policy extract_elements \<noteq> ''REQUIRED''"
    by (simp add: policy_def extract_elements_def)
  have f: "file' ?a = Null" and n: "arguments ?a \<noteq> Null" by simp_all
  note fact = execute_null_file [OF c r p f n]
  have i: "init extract_elements [PStr ''in.ifc'', PNone, PLogger, PStr ''.IfcSlab''] =
     Inr \<lparr> attr_file = Some PNone, attr_file_patched = None, state = [PStr ''.IfcSlab''] \<rparr>"
    by (simp add: extract_elements_def)
  have e: "execute example_environment ?a =
     ([Import ''ExtractElements'', Import ''ExtractElements'',
       Construct [PStr ''in.ifc'', PNone, PLogger, PStr ''.IfcSlab''], Patch], Inr PNone)"
    unfolding execute_dispatch [OF c r fact [THEN conjunct1] n]
    by (simp add: extract_elements_def patch_and_read_def before_validation_def
        basic_config_def)
  from fact [THEN conjunct1] i e show ?thesis by (intro conjI)
qed

text \<open>
  The claim as stated fails on requests whose \<^verbatim>\<open>file\<close> key maps to \<^verbatim>\<open>None\<close>, for a recipe
  whose policy is \<^verbatim>\<open>IGNORED\<close>: with a log file that cannot be opened \<^verbatim>\<open>execute\<close> raises
  before the validation, and with an \<^verbatim>\<open>arguments\<close> key that maps to \<^verbatim>\<open>None\<close> it raises
  \<^verbatim>\<open>TypeError\<close> after the validation; in both the recipe is not instantiated.
\<close>

theorem execute_unreached_constructor_counterexample:
  "execute example_environment
     \<lparr> recipe = ''ExtractElements'', file' = Null, input = Missing,
       log = Val ''/missing/patch.log'', arguments = Val [PStr ''.IfcWall''] \<rparr> =
     ([BasicConfig (Some ''/missing/patch.log'')], Inl (Raised ''FileNotFoundError'')) \<and>
   execute example_environment
     \<lparr> recipe = ''ExtractElements'', file' = Null, input = Missing, log = Missing,
       arguments = Null \<rparr> =
     ([Import ''ExtractElements'', Import ''ExtractElements''], Inl TypeError)"
  by (simp add: execute_def example_environment_def extract_elements_def policy_def
      get_patch_input_argument_use_def configure_def run_patcher_def positional_def
      basic_config_def)

section \<open>Properties of the output writer\<close>




section \<open>Properties of schema extraction\<close>

subsection \<open>The three loops\<close>

lemma update_fresh: "k \<notin> fst ` set al \<Longrightarrow> AList.update k v al = al @ [(k, v)]"
  by (induction al) auto

text \<open>
  Whatever the iterable, the first loop appends entries for some of the parameters, in
  the order of their declaration.
\<close>

lemma signature_loop_retained:
  assumes "distinct (map fst ps)" and "fst ` set ps \<inter> fst ` set inputs = {}"
  shows "\<exists>S. signature_loop bp ps inputs =
           inputs @ map (\<lambda>(n, d). (n, new_input n d)) (filter (\<lambda>(n, d). n \<in> S) ps)"
  using assms
proof (induction ps arbitrary: bp inputs)
  case Nil
  then show ?case by simp
next
  case (Cons p ps)
  obtain n d where p: "p = (n, d)" by (cases p)
  have fresh: "n \<notin> fst ` set inputs" and n_ps: "n \<notin> fst ` set ps"
    and dist: "distinct (map fst ps)"
    using Cons.prems by (auto simp: p)
  have disj: "fst ` set ps \<inter> fst ` set inputs = {}" using Cons.prems by auto
  have removed: "filter (\<lambda>(k, d). k \<in> S \<and> k \<noteq> n) ps = filter (\<lambda>(k, d). k \<in> S) ps" for S
    using n_ps by (intro filter_cong) force+
  have added: "filter (\<lambda>(k, d). k = n \<or> k \<in> S) ps = filter (\<lambda>(k, d). k \<in> S) ps" for S
    using n_ps by (intro filter_cong) force+
  have skip: "\<exists>S. inputs @ map (\<lambda>(n, d). (n, new_input n d)) (filter (\<lambda>(k, d). k \<in> S') ps) =
      inputs @ map (\<lambda>(n, d). (n, new_input n d)) (filter (\<lambda>(k, d). k \<in> S) (p # ps))" for S'
    by (rule exI [of _ "S' - {n}"]) (simp add: p removed)
  obtain found bp' where test: "is_in n bp = (found, bp')" by (cases "is_in n bp")
  show ?case
  proof (cases "n = ''self'' \<or> found")
    case True
    then have "signature_loop bp (p # ps) inputs =
        signature_loop (if n = ''self'' then bp else bp') ps inputs"
      using test by (auto simp: p)
    then obtain bp'' where "signature_loop bp (p # ps) inputs = signature_loop bp'' ps inputs"
      by blast
    moreover obtain S where "signature_loop bp'' ps inputs =
        inputs @ map (\<lambda>(n, d). (n, new_input n d)) (filter (\<lambda>(k, d). k \<in> S) ps)"
      using Cons.IH [OF dist disj, of bp''] by blast
    ultimately show ?thesis using skip [of S] by simp
  next
    case False
    have disj': "fst ` set ps \<inter> fst ` set (inputs @ [(n, new_input n d)]) = {}"
      using disj n_ps by auto
    have "signature_loop bp (p # ps) inputs =
        signature_loop bp' ps (inputs @ [(n, new_input n d)])"
      using False test fresh by (simp add: p update_fresh)
    moreover obtain S where "signature_loop bp' ps (inputs @ [(n, new_input n d)]) =
        (inputs @ [(n, new_input n d)]) @
        map (\<lambda>(n, d). (n, new_input n d)) (filter (\<lambda>(k, d). k \<in> S) ps)"
      using Cons.IH [OF dist disj', of bp'] by blast
    ultimately have "signature_loop bp (p # ps) inputs =
        inputs @ map (\<lambda>(n, d). (n, new_input n d)) (filter (\<lambda>(k, d). k \<in> insert n S) (p # ps))"
      by (simp add: p added)
    then show ?thesis by blast
  qed
qed

text \<open>For a container, what is retained is what is neither \<^verbatim>\<open>self\<close> nor in the container.\<close>

lemma signature_loop_closed:
  assumes "distinct (map fst ps)" and "fst ` set ps \<inter> fst ` set inputs = {}"
  shows "signature_loop (Container xs) ps inputs =
           inputs @ map (\<lambda>(n, d). (n, new_input n d))
                      (filter (\<lambda>(n, d). n \<noteq> ''self'' \<and> n \<notin> set xs) ps)"
  using assms
proof (induction ps arbitrary: inputs)
  case Nil
  then show ?case by simp
next
  case (Cons p ps)
  obtain n d where p: "p = (n, d)" by (cases p)
  have fresh: "n \<notin> fst ` set inputs" and n_ps: "n \<notin> fst ` set ps"
    using Cons.prems by (auto simp: p)
  show ?case
  proof (cases "n = ''self'' \<or> n \<in> set xs")
    case True
    have "fst ` set ps \<inter> fst ` set inputs = {}" using Cons.prems by auto
    with Cons.IH [of inputs] Cons.prems(1) True show ?thesis by (auto simp: p)
  next
    case False
    have disj: "fst ` set ps \<inter> fst ` set (inputs @ [(n, new_input n d)]) = {}"
      using Cons.prems n_ps by (auto simp: p)
    have "signature_loop (Container xs) (p # ps) inputs =
        signature_loop (Container xs) ps (inputs @ [(n, new_input n d)])"
      using False fresh by (simp add: p update_fresh)
    also have "\<dots> = (inputs @ [(n, new_input n d)]) @
        map (\<lambda>(n, d). (n, new_input n d)) (filter (\<lambda>(n, d). n \<noteq> ''self'' \<and> n \<notin> set xs) ps)"
      using Cons.prems(1) disj by (intro Cons.IH) simp_all
    finally show ?thesis using False by (simp add: p)
  qed
qed

lemma signature_inputs_closed:
  assumes "distinct (map fst ps)"
    and "(case bp of None \<Rightarrow> Container [] | Some it \<Rightarrow> it) = Container xs"
  shows "signature_inputs ps bp =
           map (\<lambda>(n, d). (n, new_input n d))
             (filter (\<lambda>(n, d). n \<noteq> ''self'' \<and> n \<notin> set xs) ps)"
  using signature_loop_closed [OF assms(1), of "[]" xs] assms(2)
  by (simp add: signature_inputs_def)

lemma signature_inputs_keys:
  assumes "distinct (map fst ps)"
    and "(case bp of None \<Rightarrow> Container [] | Some it \<Rightarrow> it) = Container xs"
  shows "map fst (signature_inputs ps bp) =
           filter (\<lambda>n. n \<noteq> ''self'' \<and> n \<notin> set xs) (map fst ps)"
  by (simp add: signature_inputs_closed [OF assms] filter_map comp_def case_prod_unfold)

lemma signature_inputs_retained:
  assumes "distinct (map fst ps)"
  obtains S where "signature_inputs ps bp =
      map (\<lambda>(n, d). (n, new_input n d)) (filter (\<lambda>(n, d). n \<in> S) ps)"
  using signature_loop_retained [OF assms, of "[]"] unfolding signature_inputs_def
  by auto

lemma signature_inputs_distinct:
  assumes "distinct (map fst ps)"
  shows "distinct (map fst (signature_inputs ps bp))"
proof -
  obtain S where "signature_inputs ps bp =
      map (\<lambda>(n, d). (n, new_input n d)) (filter (\<lambda>(n, d). n \<in> S) ps)"
    using assms by (rule signature_inputs_retained)
  then have "map fst (signature_inputs ps bp) = filter (\<lambda>n. n \<in> S) (map fst ps)"
    by (simp add: filter_map comp_def case_prod_unfold)
  with assms show ?thesis by simp
qed

lemma signature_inputs_entry:
  assumes "distinct (map fst ps)" and "(n, e) \<in> set (signature_inputs ps bp)"
  shows "\<exists>d. map_of ps n = Some d \<and> e = new_input n d"
proof -
  obtain S where "signature_inputs ps bp =
      map (\<lambda>(n, d). (n, new_input n d)) (filter (\<lambda>(n, d). n \<in> S) ps)"
    using assms(1) by (rule signature_inputs_retained)
  with assms(2) obtain d where "(n, d) \<in> set ps" and "e = new_input n d"
    by auto
  with assms(1) show ?thesis by simp
qed

lemma type_hints_loop_keys:
  assumes "type_hints_loop hints ns inputs = Inr inputs'" and "set ns \<subseteq> fst ` set inputs"
  shows "map fst inputs' = map fst inputs"
  using assms
proof (induction ns arbitrary: inputs)
  case Nil
  then show ?case by simp
next
  case (Cons n ns)
  show ?case
  proof (cases "hints n")
    case None
    with Cons show ?thesis by simp
  next
    case (Some h)
    with Cons.prems(1) obtain e e' where e: "map_of inputs n = Some e"
      and e': "parse_type_hint h e = Inr e'"
      and rest: "type_hints_loop hints ns (AList.update n e' inputs) = Inr inputs'"
      by (auto split: option.splits sum.splits)
    have keys: "map fst (AList.update n e' inputs) = map fst inputs"
      using Cons.prems(2) by (simp add: update_keys)
    then have "set ns \<subseteq> fst ` set (AList.update n e' inputs)"
      using Cons.prems(2) by (simp add: dom_update) blast
    from Cons.IH [OF rest this] keys show ?thesis by simp
  qed
qed

lemma type_hints_loop_entries:
  assumes "type_hints_loop hints ns inputs = Inr inputs'"
    and "distinct ns" and "set ns \<subseteq> fst ` set inputs"
  shows "map_of inputs' n =
           (if n \<in> set ns
            then (case hints n of
                    None \<Rightarrow> map_of inputs n
                  | Some h \<Rightarrow>
                      (case map_of inputs n of
                         None \<Rightarrow> None
                       | Some e \<Rightarrow>
                           (case parse_type_hint h e of Inl x \<Rightarrow> None | Inr e' \<Rightarrow> Some e')))
            else map_of inputs n)"
  using assms
proof (induction ns arbitrary: inputs)
  case Nil
  then show ?case by simp
next
  case (Cons k ns)
  show ?case
  proof (cases "hints k")
    case None
    with Cons.prems have "type_hints_loop hints ns inputs = Inr inputs'"
      and "distinct ns" and "set ns \<subseteq> fst ` set inputs" and "k \<notin> set ns"
      by simp_all
    from Cons.IH [OF this(1-3)] this(4) None show ?thesis by auto
  next
    case (Some h)
    with Cons.prems(1) obtain e e' where e: "map_of inputs k = Some e"
      and e': "parse_type_hint h e = Inr e'"
      and rest: "type_hints_loop hints ns (AList.update k e' inputs) = Inr inputs'"
      by (auto split: option.splits sum.splits)
    have sub: "set ns \<subseteq> fst ` set (AList.update k e' inputs)"
      using Cons.prems(3) by (auto simp: dom_update)
    have k: "k \<notin> set ns" and d: "distinct ns" using Cons.prems(2) by simp_all
    note IH = Cons.IH [OF rest d sub]
    show ?thesis
    proof (cases "n = k")
      case True
      with IH k Some e e' show ?thesis by (simp add: update_conv')
    next
      case False
      then have "map_of (AList.update k e' inputs) n = map_of inputs n"
        by (simp add: update_conv')
      with IH False show ?thesis by (auto split: option.splits)
    qed
  qed
qed

lemma type_hints_loop_error:
  assumes "type_hints_loop hints ns inputs = Inl x" and "set ns \<subseteq> fst ` set inputs"
  shows "\<exists>n h e. hints n = Some h \<and> parse_type_hint h e = Inl x"
  using assms
proof (induction ns arbitrary: inputs)
  case Nil
  then show ?case by simp
next
  case (Cons k ns)
  show ?case
  proof (cases "hints k")
    case None
    with Cons show ?thesis by simp
  next
    case (Some h)
    from Cons.prems(2) obtain e where e: "map_of inputs k = Some e"
      by (cases "map_of inputs k") (auto simp: map_of_eq_None_iff)
    show ?thesis
    proof (cases "parse_type_hint h e")
      case (Inl y)
      with Cons.prems(1) Some e have "y = x" by simp
      with Inl Some show ?thesis by blast
    next
      case (Inr e')
      have sub: "set ns \<subseteq> fst ` set (AList.update k e' inputs)"
        using Cons.prems(2) by (auto simp: dom_update)
      from Cons.prems(1) Some e Inr
      have "type_hints_loop hints ns (AList.update k e' inputs) = Inl x" by simp
      from Cons.IH [OF this sub] show ?thesis .
    qed
  qed
qed

lemma names_of_error: "names_of ts = Inl x \<Longrightarrow> x = AttributeError"
  by (induction ts) (auto split: option.splits sum.splits)

lemma names_of_Inr: "names_of ts = Inr ns \<longleftrightarrow> map dunder_name ts = map Some ns"
proof (induction ts arbitrary: ns)
  case Nil
  then show ?case by auto
next
  case (Cons t ts)
  show ?case
  proof (cases "dunder_name t")
    case None
    then show ?thesis by (cases ns) auto
  next
    case (Some a)
    then show ?thesis using Cons [of "tl ns"]
      by (cases ns) (auto split: sum.splits)
  qed
qed

lemma parse_type_hint_error:
  "parse_type_hint h e = Inl x \<Longrightarrow> x = AttributeError \<or> x = IndexError"
  by (auto simp: parse_type_hint_def unwrap_generic_def record_type_def item_def
      split: sum.splits option.splits if_splits dest: names_of_error)

lemma record_type_fields:
  assumes "record_type h e = Inr e'"
  shows "name e' = name e" "default e' = default e" "generic_type e' = generic_type e"
    "description e' = description e" "filter_glob e' = filter_glob e"
  using assms
  by (auto simp: record_type_def split: sum.splits option.splits if_splits)

lemma parse_type_hint_fields:
  assumes "parse_type_hint h e = Inr e'"
  shows "name e' = name e" "default e' = default e"
    "description e' = description e" "filter_glob e' = filter_glob e"
  using assms
  by (auto simp: parse_type_hint_def unwrap_generic_def item_def
      split: sum.splits option.splits if_splits dest: record_type_fields)

lemma tagged_line_error: "tagged_line tag set_key line st = Inl x \<Longrightarrow> x = IndexError"
  by (auto simp: tagged_line_def item_def Let_def split: sum.splits option.splits if_splits)

lemma parse_line_error: "parse_line i line st = Inl x \<Longrightarrow> x = IndexError"
  by (auto simp: parse_line_def item_def Let_def
      split: sum.splits option.splits if_splits dest: tagged_line_error)

lemma parse_lines_error: "parse_lines i lines st = Inl x \<Longrightarrow> x = IndexError"
  by (induction lines arbitrary: i st) (auto split: sum.splits dest: parse_line_error)

text \<open>A line that always raises makes the loop raise, wherever it stands.\<close>

lemma parse_lines_raises:
  assumes "k < length lines" and "\<And>st. parse_line (i + k) (lines ! k) st = Inl IndexError"
  shows "parse_lines i lines st = Inl IndexError"
  using assms
proof (induction lines arbitrary: i k st)
  case Nil
  then show ?case by simp
next
  case (Cons line lines)
  show ?case
  proof (cases "parse_line i line st")
    case (Inl x)
    then show ?thesis using parse_line_error [OF Inl] by simp
  next
    case (Inr st')
    show ?thesis
    proof (cases k)
      case 0
      with Cons.prems(2) [of st] Inr show ?thesis by simp
    next
      case (Suc k')
      have "parse_lines (Suc i) lines st' = Inl IndexError"
      proof (rule Cons.IH [of k'])
        show "k' < length lines" using Cons.prems(1) Suc by simp
        show "parse_line (Suc i + k') (lines ! k') st = Inl IndexError" for st
          using Cons.prems(2) [of st] Suc by simp
      qed
      with Inr show ?thesis by simp
    qed
  qed
qed

lemma split_no_sep: "sep \<notin> set s \<Longrightarrow> split sep s = [s]"
  by (induction s) auto

lemma split_length: "length (split sep s) = Suc (count_list s sep)"
  by (induction s) (auto split: list.splits)

lemma tagged_line_cases:
  assumes "tagged_line tag set_key line st = Inr st'"
  obtains "st' = st"
  | k d v where "map_of (st_inputs st) k = Some d"
      "st_inputs st' = AList.update k (set_key d v) (st_inputs st)"
proof (cases "item (split CHR '':'' line) 1")
  case (Inl x)
  with assms show ?thesis by (simp add: tagged_line_def)
next
  case (Inr field)
  let ?k = "replace tag [] (strip field)"
  show ?thesis
  proof (cases "map_of (st_inputs st) ?k")
    case None
    with assms Inr have "st' = st" by (simp add: tagged_line_def)
    then show ?thesis by (rule that(1))
  next
    case (Some d)
    show ?thesis
    proof (cases "item (split CHR '':'' line) 2")
      case (Inl x)
      with assms Inr Some show ?thesis by (simp add: tagged_line_def)
    next
      case v: (Inr v)
      with assms Inr Some
      have "st_inputs st' = AList.update ?k (set_key d (strip v)) (st_inputs st)"
        by (auto simp: tagged_line_def)
      with Some show ?thesis by (rule that(2))
    qed
  qed
qed

lemma update_entry_keys:
  assumes "map_of al k = Some d"
  shows "map fst (AList.update k d' al) = map fst al"
proof -
  from map_of_SomeD [OF assms] have "k \<in> set (map fst al)" by force
  then show ?thesis by (simp add: update_keys)
qed

lemma tagged_line_inputs:
  assumes "tagged_line tag set_key line st = Inr st'"
    and "\<And>e v. \<exists>ds fg. set_key e v = e\<lparr> description := ds, filter_glob := fg \<rparr>"
  shows "map fst (st_inputs st') = map fst (st_inputs st) \<and>
         (map_of (st_inputs st) n = Some e \<longrightarrow>
           (\<exists>ds fg. map_of (st_inputs st') n = Some (e\<lparr> description := ds, filter_glob := fg \<rparr>)))"
proof -
  have same: "\<exists>ds fg. Some e = Some (e\<lparr> description := ds, filter_glob := fg \<rparr>)"
    by (rule exI [of _ "description e"], rule exI [of _ "filter_glob e"]) simp
  from assms(1) show ?thesis
  proof (cases rule: tagged_line_cases)
    case 1
    then show ?thesis using same by simp
  next
    case (2 k d v)
    have keys: "map fst (st_inputs st') = map fst (st_inputs st)"
      unfolding 2(2) using 2(1) by (rule update_entry_keys)
    have entry: "\<exists>ds fg. map_of (st_inputs st') n = Some (e\<lparr> description := ds, filter_glob := fg \<rparr>)"
      if n: "map_of (st_inputs st) n = Some e"
    proof (cases "n = k")
      case True
      with n 2(1) have "d = e" by simp
      moreover have "map_of (st_inputs st') n = Some (set_key d v)"
        unfolding 2(2) using True by (simp add: update_conv')
      ultimately show ?thesis using assms(2) [of e v] by simp
    next
      case False
      then have "map_of (st_inputs st') n = Some e"
        unfolding 2(2) using n by (simp add: update_conv')
      then show ?thesis using same by simp
    qed
    from keys entry show ?thesis by blast
  qed
qed

lemma parse_line_cases:
  assumes "parse_line i line st = Inr st'"
  obtains "st_inputs st' = st_inputs st"
  | "tagged_line ''param '' (\<lambda>input_data v. input_data\<lparr> description := Some v \<rparr>)
       (strip line) st = Inr st'"
  | "tagged_line ''filter_glob '' (\<lambda>input_data v. input_data\<lparr> filter_glob := Some v \<rparr>)
       (strip line) st = Inr st'"
proof (cases "i = 0")
  case True
  with assms have "st_inputs st' = st_inputs st" by (auto simp: parse_line_def)
  then show ?thesis by (rule that(1))
next
  case i: False
  show ?thesis
  proof (cases "startswith (strip line) '':return:''")
    case True
    with assms i have "st_inputs st' = st_inputs st"
      by (auto simp: parse_line_def Let_def split: sum.splits)
    then show ?thesis by (rule that(1))
  next
    case r: False
    show ?thesis
    proof (cases "startswith (strip line) '':param''")
      case True
      with assms i r show ?thesis by (intro that(2)) (simp add: parse_line_def Let_def)
    next
      case p: False
      show ?thesis
      proof (cases "startswith (strip line) '':filter_glob''")
        case True
        with assms i r p show ?thesis by (intro that(3)) (simp add: parse_line_def Let_def)
      next
        case False
        with assms i r p have "st_inputs st' = st_inputs st"
          by (auto simp: parse_line_def Let_def split: if_splits)
        then show ?thesis by (rule that(1))
      qed
    qed
  qed
qed

lemma parse_line_inputs:
  assumes "parse_line i line st = Inr st'"
  shows "map fst (st_inputs st') = map fst (st_inputs st) \<and>
         (map_of (st_inputs st) n = Some e \<longrightarrow>
           (\<exists>ds fg. map_of (st_inputs st') n = Some (e\<lparr> description := ds, filter_glob := fg \<rparr>)))"
proof -
  have same: "\<exists>ds fg. Some e = Some (e\<lparr> description := ds, filter_glob := fg \<rparr>)"
    by (rule exI [of _ "description e"], rule exI [of _ "filter_glob e"]) simp
  have d: "\<exists>ds fg. e\<lparr> description := Some v \<rparr> = e\<lparr> description := ds, filter_glob := fg \<rparr>"
    for e :: input_data and v
    by (rule exI [of _ "Some v"], rule exI [of _ "filter_glob e"]) simp
  have f: "\<exists>ds fg. e\<lparr> filter_glob := Some v \<rparr> = e\<lparr> description := ds, filter_glob := fg \<rparr>"
    for e :: input_data and v
    by (rule exI [of _ "description e"], rule exI [of _ "Some v"]) simp
  from assms show ?thesis
  proof (cases rule: parse_line_cases)
    case 1
    then show ?thesis using same by simp
  next
    case 2
    then show ?thesis using d by (rule tagged_line_inputs)
  next
    case 3
    then show ?thesis using f by (rule tagged_line_inputs)
  qed
qed

lemma parse_lines_inputs:
  assumes "parse_lines i lines st = Inr st'"
  shows "map fst (st_inputs st') = map fst (st_inputs st) \<and>
         (map_of (st_inputs st) n = Some e \<longrightarrow>
            (\<exists>ds fg. map_of (st_inputs st') n = Some (e\<lparr> description := ds, filter_glob := fg \<rparr>)))"
  using assms
proof (induction lines arbitrary: i st e)
  case Nil
  have same: "\<exists>ds fg. Some e = Some (e\<lparr> description := ds, filter_glob := fg \<rparr>)"
    by (rule exI [of _ "description e"], rule exI [of _ "filter_glob e"]) simp
  from Nil have "st' = st" by simp
  then show ?case using same by simp
next
  case (Cons line lines)
  from Cons.prems obtain st1 where one: "parse_line i line st = Inr st1"
    and rest: "parse_lines (Suc i) lines st1 = Inr st'"
    by (auto split: sum.splits)
  have keys1: "map fst (st_inputs st1) = map fst (st_inputs st)"
    using parse_line_inputs [OF one] by blast
  show ?case
  proof (intro conjI impI)
    show "map fst (st_inputs st') = map fst (st_inputs st)"
      using Cons.IH [OF rest] keys1 by simp
    assume "map_of (st_inputs st) n = Some e"
    with parse_line_inputs [OF one, of n e] obtain ds fg
      where e1: "map_of (st_inputs st1) n = Some (e\<lparr> description := ds, filter_glob := fg \<rparr>)"
      by blast
    from Cons.IH [OF rest, of "e\<lparr> description := ds, filter_glob := fg \<rparr>"] e1
    obtain ds' fg' where "map_of (st_inputs st') n =
        Some (e\<lparr> description := ds, filter_glob := fg \<rparr>\<lparr> description := ds', filter_glob := fg' \<rparr>)"
      by blast
    then have "map_of (st_inputs st') n = Some (e\<lparr> description := ds', filter_glob := fg' \<rparr>)"
      by simp
    then show "\<exists>ds fg. map_of (st_inputs st') n = Some (e\<lparr> description := ds, filter_glob := fg \<rparr>)"
      by blast
  qed
qed

lemma hinted_inputs_keys:
  assumes "hinted_inputs m bp = Inr inputs" and "signature m = Inr ps"
  shows "map fst inputs = map fst (signature_inputs ps bp)"
proof -
  from assms obtain hints where "type_hints_loop hints (map fst (signature_inputs ps bp))
      (signature_inputs ps bp) = Inr inputs"
    by (auto simp: hinted_inputs_def split: sum.splits)
  then show ?thesis by (rule type_hints_loop_keys) simp
qed

lemma hinted_inputs_entry:
  assumes "signature m = Inr ps" and "get_type_hints m = Inr hints"
    and "distinct (map fst ps)"
    and "hinted_inputs m bp = Inr inputs"
    and "map_of (signature_inputs ps bp) n = Some e0"
  shows "\<exists>e1. map_of inputs n = Some e1 \<and>
           (case hints n of
              None \<Rightarrow> e1 = e0
            | Some h \<Rightarrow> parse_type_hint h e0 = Inr e1)"
proof -
  let ?sig = "signature_inputs ps bp"
  have loop: "type_hints_loop hints (map fst ?sig) ?sig = Inr inputs"
    using assms(1,2,4) by (simp add: hinted_inputs_def)
  have d: "distinct (map fst ?sig)" using assms(3) by (rule signature_inputs_distinct)
  have n: "n \<in> set (map fst ?sig)"
    using map_of_SomeD [OF assms(5)] by force
  have keys: "map fst inputs = map fst ?sig"
    using assms(4,1) by (rule hinted_inputs_keys)
  then have "n \<in> fst ` set inputs" using n by (metis list.set_map)
  then obtain e1 where e1: "map_of inputs n = Some e1"
    by (cases "map_of inputs n") (auto simp: map_of_eq_None_iff)
  have "map_of inputs n =
      (case hints n of
         None \<Rightarrow> map_of ?sig n
       | Some h \<Rightarrow>
           (case map_of ?sig n of
              None \<Rightarrow> None
            | Some e \<Rightarrow> (case parse_type_hint h e of Inl x \<Rightarrow> None | Inr e' \<Rightarrow> Some e')))"
    using type_hints_loop_entries [OF loop d, of n] n
    by simp
  with e1 assms(5) show ?thesis
    by (auto split: option.splits sum.splits)
qed

lemma extract_docs'_inputs:
  assumes "methods cls method_name = Some m"
    and "extract_docs' cls method_name bp = Inr d"
  obtains inputs where "hinted_inputs m bp = Inr inputs"
    and "map fst (docs_inputs d) = map fst inputs"
    and "\<And>n e. map_of inputs n = Some e \<Longrightarrow>
           \<exists>ds fg. map_of (docs_inputs d) n = Some (e\<lparr> description := ds, filter_glob := fg \<rparr>)"
proof -
  from assms obtain inputs where inputs: "hinted_inputs m bp = Inr inputs"
    by (auto simp: extract_docs'_def split: sum.splits)
  have same: "\<exists>ds fg. Some e = Some (e\<lparr> description := ds, filter_glob := fg \<rparr>)"
    for e :: input_data
    by (rule exI [of _ "description e"], rule exI [of _ "filter_glob e"]) simp
  show thesis
  proof (cases "doc m")
    case None
    with assms inputs have "docs_inputs d = inputs"
      by (auto simp: extract_docs'_def)
    with inputs same show thesis by (intro that [of inputs]) simp_all
  next
    case (Some docstring)
    let ?st = "\<lparr> st_name = None, st_output = None, st_inputs = inputs, st_description = [] \<rparr>"
    from assms inputs Some obtain st
      where st: "parse_lines 0 (split CHR ''\<newline>'' docstring) ?st = Inr st"
        and d: "docs_inputs d = st_inputs st"
      by (auto simp: extract_docs'_def split: sum.splits)
    show thesis
    proof (rule that [of inputs])
      show "hinted_inputs m bp = Inr inputs" by (rule inputs)
      show "map fst (docs_inputs d) = map fst inputs"
        using parse_lines_inputs [OF st] d by simp
      show "\<exists>ds fg. map_of (docs_inputs d) n = Some (e\<lparr> description := ds, filter_glob := fg \<rparr>)"
        if "map_of inputs n = Some e" for n e
        using parse_lines_inputs [OF st, of n e] that d by simp
    qed
  qed
qed

lemma extract_docs'_keys:
  assumes "methods cls method_name = Some m" and "signature m = Inr ps"
    and "extract_docs' cls method_name bp = Inr d"
  shows "map fst (docs_inputs d) = map fst (signature_inputs ps bp)"
  using extract_docs'_inputs [OF assms(1,3)] hinted_inputs_keys [OF _ assms(2)]
  by metis

lemma final_entry:
  assumes m: "methods cls method_name = Some m"
    and ps: "signature m = Inr ps"
    and hints: "get_type_hints m = Inr hints"
    and dist: "distinct (map fst ps)"
    and ok: "extract_docs' cls method_name bp = Inr d"
    and entry: "(n, e) \<in> set (docs_inputs d)"
  obtains dflt e1 ds fg where "map_of ps n = Some dflt"
    and "case hints n of
           None \<Rightarrow> e1 = new_input n dflt
         | Some h \<Rightarrow> parse_type_hint h (new_input n dflt) = Inr e1"
    and "e = e1\<lparr> description := ds, filter_glob := fg \<rparr>"
proof (rule extract_docs'_inputs [OF m ok])
  fix inputs
  assume inputs: "hinted_inputs m bp = Inr inputs"
    and keys: "map fst (docs_inputs d) = map fst inputs"
    and final: "\<And>n e. map_of inputs n = Some e \<Longrightarrow>
           \<exists>ds fg. map_of (docs_inputs d) n = Some (e\<lparr> description := ds, filter_glob := fg \<rparr>)"
  let ?sig = "signature_inputs ps bp"
  have keys': "map fst (docs_inputs d) = map fst ?sig"
    using keys hinted_inputs_keys [OF inputs ps] by simp
  have dsig: "distinct (map fst ?sig)" using dist by (rule signature_inputs_distinct)
  from entry have "n \<in> set (map fst (docs_inputs d))" by force
  then have "n \<in> fst ` set ?sig" using keys' by (metis list.set_map)
  then obtain e0 where e0: "(n, e0) \<in> set ?sig" by force
  then have sig: "map_of ?sig n = Some e0" using dsig by simp
  from signature_inputs_entry [OF dist e0] obtain dflt
    where dflt: "map_of ps n = Some dflt" and new: "e0 = new_input n dflt"
    by blast
  from hinted_inputs_entry [OF ps hints dist inputs sig] obtain e1
    where e1: "map_of inputs n = Some e1"
      and hint: "case hints n of None \<Rightarrow> e1 = e0 | Some h \<Rightarrow> parse_type_hint h e0 = Inr e1"
    by blast
  from final [OF e1] obtain ds fg
    where "map_of (docs_inputs d) n = Some (e1\<lparr> description := ds, filter_glob := fg \<rparr>)"
    by blast
  moreover have "map_of (docs_inputs d) n = Some e"
    using entry dsig keys' by simp
  ultimately have e: "e = e1\<lparr> description := ds, filter_glob := fg \<rparr>" by simp
  from hint have hint': "case hints n of
           None \<Rightarrow> e1 = new_input n dflt
         | Some h \<Rightarrow> parse_type_hint h (new_input n dflt) = Inr e1"
    unfolding new .
  from dflt hint' e show thesis by (rule that)
qed

text \<open>
  What \<^verbatim>\<open>_extract_docs\<close> raises: \<^verbatim>\<open>AttributeError\<close>, \<^verbatim>\<open>IndexError\<close>, or what
  \<^verbatim>\<open>inspect.signature\<close> or \<^verbatim>\<open>typing.get_type_hints\<close> raised.
\<close>

lemma extract_docs'_error:
  assumes "extract_docs' cls method_name bp = Inl x"
  shows "x = AttributeError \<or> x = IndexError \<or>
         (\<exists>m. methods cls method_name = Some m \<and>
            (signature m = Inl x \<or> get_type_hints m = Inl x))"
proof (cases "methods cls method_name")
  case None
  with assms show ?thesis by (simp add: extract_docs'_def)
next
  case (Some m)
  show ?thesis
  proof (cases "hinted_inputs m bp")
    case (Inl y)
    with assms Some have y: "y = x" by (simp add: extract_docs'_def)
    show ?thesis
    proof (cases "signature m")
      case sig: (Inl z)
      with Inl y have "signature m = Inl x" by (simp add: hinted_inputs_def)
      with Some show ?thesis by simp
    next
      case ps: (Inr ps)
      show ?thesis
      proof (cases "get_type_hints m")
        case hints: (Inl z)
        with Inl y ps have "get_type_hints m = Inl x" by (simp add: hinted_inputs_def)
        with Some show ?thesis by simp
      next
        case hints: (Inr hints)
        with Inl y ps have "type_hints_loop hints (map fst (signature_inputs ps bp))
            (signature_inputs ps bp) = Inl x"
          by (simp add: hinted_inputs_def)
        then obtain h e where "parse_type_hint h e = Inl x"
          using type_hints_loop_error [of hints "map fst (signature_inputs ps bp)"
              "signature_inputs ps bp" x]
          by auto
        then have "x = AttributeError \<or> x = IndexError" by (rule parse_type_hint_error)
        then show ?thesis by blast
      qed
    qed
  next
    case (Inr inputs)
    with assms Some obtain docstring st where
      "parse_lines 0 (split CHR ''\<newline>'' docstring) st = Inl x"
      by (auto simp: extract_docs'_def split: option.splits sum.splits)
    then show ?thesis by (simp add: parse_lines_error)
  qed
qed

subsection \<open>Parameters and defaults\<close>

text \<open>
  When \<^verbatim>\<open>boilerplate_args\<close> is \<^verbatim>\<open>None\<close> or a container, and the parameter names are distinct,
  as the names of a Python signature are: whenever \<^verbatim>\<open>_extract_docs\<close> returns a schema, the
  keys of \<^verbatim>\<open>inputs\<close> are the parameter names in the order of their declaration, without
  \<^verbatim>\<open>self\<close> and without the names in the container; and the entry of a parameter has a
  \<^verbatim>\<open>default\<close> exactly when the parameter has a default that is a string, a float, an
  integer or a boolean, and then it is that default.
\<close>

lemma container_parameters:
  assumes "methods cls method_name = Some m"
    and "signature m = Inr ps"
    and "distinct (map fst ps)"
    and "(case boilerplate_args of None \<Rightarrow> Container [] | Some it \<Rightarrow> it) = Container xs"
    and "extract_docs' cls method_name boilerplate_args = Inr d"
  shows "map fst (docs_inputs d) = filter (\<lambda>n. n \<noteq> ''self'' \<and> n \<notin> set xs) (map fst ps) \<and>
         (\<forall>(n, e) \<in> set (docs_inputs d).
            name e = n \<and>
            default e =
              (case map_of ps n of
                 Some (Some v) \<Rightarrow> if is_scalar v then Some v else None
               | _ \<Rightarrow> None))"
proof (intro conjI ballI)
  show "map fst (docs_inputs d) = filter (\<lambda>n. n \<noteq> ''self'' \<and> n \<notin> set xs) (map fst ps)"
    using extract_docs'_keys [OF assms(1,2,5)] signature_inputs_keys [OF assms(3,4)]
    by simp
next
  fix p
  assume p: "p \<in> set (docs_inputs d)"
  obtain n e where ne: "p = (n, e)" by (cases p)
  with p have entry: "(n, e) \<in> set (docs_inputs d)" by simp
  obtain hints where hints: "get_type_hints m = Inr hints"
    using assms(1,2,5)
    by (cases "get_type_hints m") (auto simp: extract_docs'_def hinted_inputs_def)
  from assms(1,2) hints assms(3,5) entry have "name e = n \<and>
      default e =
        (case map_of ps n of
           Some (Some v) \<Rightarrow> if is_scalar v then Some v else None
         | _ \<Rightarrow> None)"
  proof (rule final_entry)
    fix dflt e1 ds fg
    assume dflt: "map_of ps n = Some dflt"
      and hint: "case hints n of
           None \<Rightarrow> e1 = new_input n dflt
         | Some h \<Rightarrow> parse_type_hint h (new_input n dflt) = Inr e1"
      and e: "e = e1\<lparr> description := ds, filter_glob := fg \<rparr>"
    have "name e1 = name (new_input n dflt) \<and> default e1 = default (new_input n dflt)"
      using hint by (auto split: option.splits dest: parse_type_hint_fields)
    then show ?thesis
      using dflt e by (simp add: new_input_def split: option.splits)
  qed
  then show "case p of (n, e) \<Rightarrow>
      name e = n \<and>
      default e =
        (case map_of ps n of
           Some (Some v) \<Rightarrow> if is_scalar v then Some v else None
         | _ \<Rightarrow> None)"
    by (simp add: ne)
qed

lemma with_boilerplate_hinted:
  "hinted_inputs
     \<lparr> signature = Inr [(''self'', None), (''file'', None), (''logger'', None),
         (''a'', None), (''b'', Some (PInt 5))],
       get_type_hints = Inr [''a'' \<mapsto> str_hint, ''b'' \<mapsto> int_hint],
       doc = None \<rparr> (Some (Container [''logger'', ''file''])) =
   Inr [(''a'', \<lparr> name = ''a'', default = None, generic_type = None,
           type' = Some (TypeName ''str''), enum_items = None,
           description = None, filter_glob = None \<rparr>),
        (''b'', \<lparr> name = ''b'', default = Some (PInt 5), generic_type = None,
           type' = Some (TypeName ''int''), enum_items = None,
           description = None, filter_glob = None \<rparr>)]"
proof -
  have sig: "signature_inputs [(''self'', None), (''file'', None), (''logger'', None),
         (''a'', None), (''b'', Some (PInt 5))] (Some (Container [''logger'', ''file''])) =
      [(''a'', new_input ''a'' None), (''b'', new_input ''b'' (Some (PInt 5)))]"
    by (simp add: signature_inputs_def)
  show ?thesis
    unfolding hinted_inputs_def
    by (simp add: sig parse_type_hint_def unwrap_generic_def record_type_def str_hint_def
        int_hint_def new_input_def)
qed

lemma with_boilerplate_consumed:
  "hinted_inputs
     \<lparr> signature = Inr [(''self'', None), (''file'', None), (''logger'', None),
         (''a'', None), (''b'', Some (PInt 5))],
       get_type_hints = Inr [''a'' \<mapsto> str_hint, ''b'' \<mapsto> int_hint],
       doc = None \<rparr> (Some (Iterator [''logger'', ''file''])) =
   Inr [(''logger'', \<lparr> name = ''logger'', default = None, generic_type = None,
           type' = None, enum_items = None, description = None, filter_glob = None \<rparr>),
        (''a'', \<lparr> name = ''a'', default = None, generic_type = None,
           type' = Some (TypeName ''str''), enum_items = None,
           description = None, filter_glob = None \<rparr>),
        (''b'', \<lparr> name = ''b'', default = Some (PInt 5), generic_type = None,
           type' = Some (TypeName ''int''), enum_items = None,
           description = None, filter_glob = None \<rparr>)]"
proof -
  have sig: "signature_inputs [(''self'', None), (''file'', None), (''logger'', None),
         (''a'', None), (''b'', Some (PInt 5))] (Some (Iterator [''logger'', ''file''])) =
      [(''logger'', new_input ''logger'' None), (''a'', new_input ''a'' None),
       (''b'', new_input ''b'' (Some (PInt 5)))]"
    by (simp add: signature_inputs_def)
  show ?thesis
    unfolding hinted_inputs_def
    by (simp add: sig parse_type_hint_def unwrap_generic_def record_type_def str_hint_def
        int_hint_def new_input_def)
qed

text \<open>
  Claim C6. The claim holds of the constructor \<^verbatim>\<open>(a: str, b: int = 5)\<close> when the excluded
  names are given as a list: the keys are \<^verbatim>\<open>a\<close> and \<^verbatim>\<open>b\<close> in this order, \<^verbatim>\<open>b\<close> has the
  default 5 and \<^verbatim>\<open>a\<close> has none. It fails when they are given as an iterator, which the
  declared type \<^verbatim>\<open>Iterable[str]\<close> admits. For
  \<^verbatim>\<open>__init__(self, file, logger, a: str, b: int = 5)\<close> and
  \<^verbatim>\<open>boilerplate_args = iter(["logger", "file"])\<close>, the test \<^verbatim>\<open>"file" in boilerplate_args\<close>
  takes both items from the iterator, the test \<^verbatim>\<open>"logger" in boilerplate_args\<close> that follows
  finds it exhausted, and \<^verbatim>\<open>logger\<close>, a name of the excluded set, is a key of the schema.
\<close>

theorem extract_docs_consumed_iterator:
  "extract_docs' with_boilerplate ''__init__'' (Some (Container [''logger'', ''file''])) =
     Inr \<lparr> docs_class = with_boilerplate, docs_name = None, docs_output = None,
           docs_description = None,
           docs_inputs =
             [(''a'', \<lparr> name = ''a'', default = None, generic_type = None,
                 type' = Some (TypeName ''str''), enum_items = None,
                 description = None, filter_glob = None \<rparr>),
              (''b'', \<lparr> name = ''b'', default = Some (PInt 5), generic_type = None,
                 type' = Some (TypeName ''int''), enum_items = None,
                 description = None, filter_glob = None \<rparr>)] \<rparr> \<and>
   extract_docs' with_boilerplate ''__init__'' (Some (Iterator [''logger'', ''file''])) =
     Inr \<lparr> docs_class = with_boilerplate, docs_name = None, docs_output = None,
           docs_description = None,
           docs_inputs =
             [(''logger'', \<lparr> name = ''logger'', default = None, generic_type = None,
                 type' = None, enum_items = None, description = None, filter_glob = None \<rparr>),
              (''a'', \<lparr> name = ''a'', default = None, generic_type = None,
                 type' = Some (TypeName ''str''), enum_items = None,
                 description = None, filter_glob = None \<rparr>),
              (''b'', \<lparr> name = ''b'', default = Some (PInt 5), generic_type = None,
                 type' = Some (TypeName ''int''), enum_items = None,
                 description = None, filter_glob = None \<rparr>)] \<rparr>"
proof -
  have m: "methods with_boilerplate ''__init__'' =
      Some \<lparr> signature = Inr [(''self'', None), (''file'', None), (''logger'', None),
               (''a'', None), (''b'', Some (PInt 5))],
             get_type_hints = Inr [''a'' \<mapsto> str_hint, ''b'' \<mapsto> int_hint],
             doc = None \<rparr>"
    by (simp add: with_boilerplate_def)
  show ?thesis
    unfolding extract_docs'_def m
    by (simp add: with_boilerplate_hinted with_boilerplate_consumed)
qed

subsection \<open>Type hints\<close>

lemma record_type_result:
  assumes "record_type h e0 = Inr e1"
  shows "generic_type e1 = generic_type e0 \<and>
         (if alias_of h = UnionGenericAlias
          then (\<exists>ns. map dunder_name (get_args h) = map Some ns \<and>
                  type' e1 = Some (TypeNames ns)) \<and>
               enum_items e1 = enum_items e0
          else if dunder_name h = Some ''Literal''
          then type' e1 = Some (TypeName ''Literal'') \<and> enum_items e1 = Some (get_args h)
          else (\<exists>nm. dunder_name h = Some nm \<and> type' e1 = Some (TypeName nm)) \<and>
               enum_items e1 = enum_items e0)"
proof (cases "alias_of h = UnionGenericAlias")
  case True
  with assms obtain ns where ns: "names_of (get_args h) = Inr ns"
    and e1: "e1 = e0\<lparr> type' := Some (TypeNames ns) \<rparr>"
    by (auto simp: record_type_def split: sum.splits)
  from ns have "map dunder_name (get_args h) = map Some ns" by (simp add: names_of_Inr)
  with True e1 show ?thesis by auto
next
  case False
  with assms obtain nm where nm: "dunder_name h = Some nm"
    by (auto simp: record_type_def split: option.splits)
  with assms False show ?thesis
    by (auto simp: record_type_def split: if_splits)
qed

lemma unwrap_generic_result:
  assumes "unwrap_generic h e0 = Inr (h', e')"
  shows "if alias_of h = GenericAlias
         then e' = e0\<lparr> generic_type := dunder_name h \<rparr> \<and> dunder_name h \<noteq> None \<and>
              (\<exists>rest. get_args h = h' # rest)
         else e' = e0 \<and> h' = h"
proof (cases "alias_of h = GenericAlias")
  case True
  with assms obtain c where c: "dunder_name h = Some c"
    by (auto simp: unwrap_generic_def split: option.splits)
  with assms True have "item (get_args h) 0 = Inr h'" and "e' = e0\<lparr> generic_type := Some c \<rparr>"
    by (auto simp: unwrap_generic_def split: sum.splits)
  moreover from this(1) have "\<exists>rest. get_args h = h' # rest"
    by (cases "get_args h") (auto simp: item_def)
  ultimately show ?thesis using True c by simp
next
  case False
  with assms show ?thesis by (simp add: unwrap_generic_def)
qed

text \<open>A hint that is no alias of either class and has no name cannot be read.\<close>

lemma unnamed_hint:
  assumes "alias_of h = NoAlias" and "dunder_name h = None"
  shows "parse_type_hint h e = Inl AttributeError"
  using assms by (simp add: parse_type_hint_def unwrap_generic_def record_type_def)

text \<open>The example with a docstring, evaluated.\<close>

lemma documented_signature:
  "signature_inputs
     [(''self'', None), (''file'', None), (''logger'', None), (''query'', Some PNone),
      (''mode'', Some (PStr ''x'')), (''names'', Some (PList [])), (''count'', Some (PInt 1)),
      (''extra'', Some PNone)]
     (Some (Container [''file'', ''logger''])) =
     [(''query'', new_input ''query'' (Some PNone)),
      (''mode'', new_input ''mode'' (Some (PStr ''x''))),
      (''names'', new_input ''names'' (Some (PList []))),
      (''count'', new_input ''count'' (Some (PInt 1))),
      (''extra'', new_input ''extra'' (Some PNone))]"
  by (simp add: signature_inputs_def)

lemma documented_hinted:
  "hinted_inputs documented_init (Some (Container [''file'', ''logger''])) =
     Inr (map (\<lambda>(n, e). (n, e\<lparr> description := None, filter_glob := None \<rparr>)) documented_schema)"
proof -
  have ps: "signature documented_init =
      Inr [(''self'', None), (''file'', None), (''logger'', None), (''query'', Some PNone),
        (''mode'', Some (PStr ''x'')), (''names'', Some (PList [])), (''count'', Some (PInt 1)),
        (''extra'', Some PNone)]"
    by (simp add: documented_init_def)
  have hints: "get_type_hints documented_init =
      Inr [''query'' \<mapsto> Hint UnionGenericAlias (Some ''Optional'') [str_hint, none_hint],
           ''mode'' \<mapsto> Hint NoAlias (Some ''Literal'') [Constant (PStr ''x''), Constant (PStr ''y'')],
           ''names'' \<mapsto> Hint GenericAlias (Some ''list'') [str_hint],
           ''count'' \<mapsto> int_hint]"
    by (simp add: documented_init_def)
  show ?thesis
    unfolding hinted_inputs_def ps hints sum.case documented_signature
    by (simp add: documented_schema_def parse_type_hint_def
        unwrap_generic_def record_type_def item_def str_hint_def int_hint_def none_hint_def
        new_input_def)
qed

lemma documented_lines:
  "split CHR ''\<newline>'' (the (doc documented_init)) =
     [''Select elements'', [], ''    Keeps what the query selects.'', [],
      ''    :param query: What to keep'', ''    :param other: Not a parameter'',
      ''    :filter_glob names: *.ifc'', ''    :return: model: The patched model'', ''    '']"
  by (simp add: documented_init_def)

lemma documented_parsed:
  "parse_lines 0
     [''Select elements'', [], ''    Keeps what the query selects.'', [],
      ''    :param query: What to keep'', ''    :param other: Not a parameter'',
      ''    :filter_glob names: *.ifc'', ''    :return: model: The patched model'', ''    '']
     \<lparr> st_name = None, st_output = None,
       st_inputs = map (\<lambda>(n, e). (n, e\<lparr> description := None, filter_glob := None \<rparr>))
                     documented_schema,
       st_description = [] \<rparr> =
   Inr \<lparr> st_name = Some ''Select elements'',
         st_output = Some (''model'', ''The patched model''),
         st_inputs = documented_schema,
         st_description = ''Keeps what the query selects.\<newline>\<newline>'' \<rparr>"
  by (simp add: parse_line_def tagged_line_def Let_def strip_def isspace_def item_def
      documented_schema_def)

lemma documented_docs:
  "extract_docs' documented ''__init__'' (Some (Container [''file'', ''logger''])) =
     Inr \<lparr> docs_class = documented, docs_name = Some ''Select elements'',
           docs_output = Some (''model'', ''The patched model''),
           docs_description = Some ''Keeps what the query selects.'',
           docs_inputs = documented_schema \<rparr>"
proof -
  have m: "methods documented ''__init__'' = Some documented_init"
    by (simp add: documented_def)
  have d: "doc documented_init = Some (the (doc documented_init))"
    by (simp add: documented_init_def)
  have s: "strip ''Keeps what the query selects.\<newline>\<newline>'' = ''Keeps what the query selects.''"
    by (simp add: strip_def isspace_def)
  show ?thesis
    unfolding extract_docs'_def m
    apply (simp add: documented_hinted)
    apply (subst d)
    apply (simp only: option.case documented_lines documented_parsed)
    apply (simp add: s)
    done
qed

text \<open>
  Claim C7, as amended. Read a union-of-types hint as an instance of
  \<^verbatim>\<open>typing._UnionGenericAlias\<close> (\<^verbatim>\<open>Union[str, int]\<close>, \<^verbatim>\<open>Optional[str]\<close>), a parameterized
  container hint as an instance of \<^verbatim>\<open>typing.GenericAlias\<close> (\<^verbatim>\<open>list[str]\<close>), and an
  enumerated-literal hint as one whose \<^verbatim>\<open>__name__\<close> is \<^verbatim>\<open>Literal\<close>. Take a method whose
  signature and type hints resolve (its parameter names are distinct, as the names of a
  Python signature are). Whenever \<^verbatim>\<open>_extract_docs\<close> returns a schema, the
  entry of every retained parameter is as follows. Without a hint it has no
  \<^verbatim>\<open>generic_type\<close>, no \<^verbatim>\<open>type\<close> and no \<^verbatim>\<open>enum_items\<close>. With a container hint,
  \<^verbatim>\<open>generic_type\<close> is the name of the container and the rest describes its first
  argument; otherwise there is no \<^verbatim>\<open>generic_type\<close> and the rest describes the hint itself.
  What is described, if a union, gives \<^verbatim>\<open>type\<close> as the list of the names of its members in
  order; if a literal, gives \<^verbatim>\<open>type\<close> as \<^verbatim>\<open>Literal\<close> and \<^verbatim>\<open>enum_items\<close> as its values in order;
  and else gives \<^verbatim>\<open>type\<close> as its name. And no schema is returned when a retained parameter
  has a hint that is an instance of neither class and has no \<^verbatim>\<open>__name__\<close>, as the union
  \<^verbatim>\<open>str | None\<close> written with the operator: \<^verbatim>\<open>_extract_docs\<close> raises \<^verbatim>\<open>AttributeError\<close>, or
  the \<^verbatim>\<open>IndexError\<close> of a container hint without arguments that comes before.
\<close>

theorem extract_docs_type_hints:
  assumes "methods cls method_name = Some m"
    and "signature m = Inr ps"
    and "distinct (map fst ps)"
    and "get_type_hints m = Inr hints"
  shows "(\<forall>d. extract_docs' cls method_name boilerplate_args = Inr d \<longrightarrow>
           (\<forall>(n, e) \<in> set (docs_inputs d).
              case hints n of
                None \<Rightarrow> generic_type e = None \<and> type' e = None \<and> enum_items e = None
              | Some h \<Rightarrow>
                  (\<exists>h'. (if alias_of h = GenericAlias
                         then generic_type e = dunder_name h \<and> dunder_name h \<noteq> None \<and>
                              (\<exists>rest. get_args h = h' # rest)
                         else generic_type e = None \<and> h' = h) \<and>
                        (if alias_of h' = UnionGenericAlias
                         then (\<exists>ns. map dunder_name (get_args h') = map Some ns \<and>
                                 type' e = Some (TypeNames ns)) \<and>
                              enum_items e = None
                         else if dunder_name h' = Some ''Literal''
                         then type' e = Some (TypeName ''Literal'') \<and>
                              enum_items e = Some (get_args h')
                         else (\<exists>nm. dunder_name h' = Some nm \<and>
                                 type' e = Some (TypeName nm)) \<and>
                              enum_items e = None)))) \<and>
         (\<forall>n h. n \<in> fst ` set (signature_inputs ps boilerplate_args) \<and> hints n = Some h \<and>
              alias_of h = NoAlias \<and> dunder_name h = None \<longrightarrow>
            extract_docs' cls method_name boilerplate_args = Inl AttributeError \<or>
            extract_docs' cls method_name boilerplate_args = Inl IndexError)"
proof (intro conjI allI impI ballI)
  fix d p
  assume ok: "extract_docs' cls method_name boilerplate_args = Inr d"
    and p: "p \<in> set (docs_inputs d)"
  obtain n e where ne: "p = (n, e)" by (cases p)
  with p have entry: "(n, e) \<in> set (docs_inputs d)" by simp
  from assms(1,2,4,3) ok entry
  have "case hints n of
          None \<Rightarrow> generic_type e = None \<and> type' e = None \<and> enum_items e = None
        | Some h \<Rightarrow>
            (\<exists>h'. (if alias_of h = GenericAlias
                   then generic_type e = dunder_name h \<and> dunder_name h \<noteq> None \<and>
                        (\<exists>rest. get_args h = h' # rest)
                   else generic_type e = None \<and> h' = h) \<and>
                  (if alias_of h' = UnionGenericAlias
                   then (\<exists>ns. map dunder_name (get_args h') = map Some ns \<and>
                           type' e = Some (TypeNames ns)) \<and>
                        enum_items e = None
                   else if dunder_name h' = Some ''Literal''
                   then type' e = Some (TypeName ''Literal'') \<and>
                        enum_items e = Some (get_args h')
                   else (\<exists>nm. dunder_name h' = Some nm \<and> type' e = Some (TypeName nm)) \<and>
                        enum_items e = None))"
  proof (rule final_entry)
    fix dflt e1 ds fg
    assume hint: "case hints n of
             None \<Rightarrow> e1 = new_input n dflt
           | Some h \<Rightarrow> parse_type_hint h (new_input n dflt) = Inr e1"
      and e: "e = e1\<lparr> description := ds, filter_glob := fg \<rparr>"
    let ?e0 = "new_input n dflt"
    have fields: "generic_type e = generic_type e1" "type' e = type' e1"
      "enum_items e = enum_items e1"
      by (simp_all add: e)
    have e0: "generic_type ?e0 = None" "type' ?e0 = None" "enum_items ?e0 = None"
      by (simp_all add: new_input_def)
    show ?thesis
    proof (cases "hints n")
      case None
      with hint fields e0 show ?thesis by simp
    next
      case (Some h)
      with hint have "parse_type_hint h ?e0 = Inr e1" by simp
      then obtain h' e' where unwrap: "unwrap_generic h ?e0 = Inr (h', e')"
        and rec: "record_type h' e' = Inr e1"
        by (auto simp: parse_type_hint_def split: sum.splits)
      note u = unwrap_generic_result [OF unwrap]
      note r = record_type_result [OF rec]
      have e': "enum_items e' = None" "type' e' = None"
        using u e0 by (auto split: if_splits)
      have first: "if alias_of h = GenericAlias
          then generic_type e = dunder_name h \<and> dunder_name h \<noteq> None \<and>
               (\<exists>rest. get_args h = h' # rest)
          else generic_type e = None \<and> h' = h"
        using u r e0 fields by (auto split: if_splits)
      have second: "if alias_of h' = UnionGenericAlias
          then (\<exists>ns. map dunder_name (get_args h') = map Some ns \<and>
                  type' e = Some (TypeNames ns)) \<and>
               enum_items e = None
          else if dunder_name h' = Some ''Literal''
          then type' e = Some (TypeName ''Literal'') \<and> enum_items e = Some (get_args h')
          else (\<exists>nm. dunder_name h' = Some nm \<and> type' e = Some (TypeName nm)) \<and>
               enum_items e = None"
        using r e' fields by (simp split: if_splits)
      from first second have "\<exists>h'. (if alias_of h = GenericAlias
                      then generic_type e = dunder_name h \<and> dunder_name h \<noteq> None \<and>
                           (\<exists>rest. get_args h = h' # rest)
                      else generic_type e = None \<and> h' = h) \<and>
                     (if alias_of h' = UnionGenericAlias
                      then (\<exists>ns. map dunder_name (get_args h') = map Some ns \<and>
                              type' e = Some (TypeNames ns)) \<and>
                           enum_items e = None
                      else if dunder_name h' = Some ''Literal''
                      then type' e = Some (TypeName ''Literal'') \<and>
                           enum_items e = Some (get_args h')
                      else (\<exists>nm. dunder_name h' = Some nm \<and> type' e = Some (TypeName nm)) \<and>
                           enum_items e = None)"
        by (intro exI [of _ h'] conjI)
      with Some show ?thesis by simp
    qed
  qed
  then show "case p of (n, e) \<Rightarrow>
      case hints n of
        None \<Rightarrow> generic_type e = None \<and> type' e = None \<and> enum_items e = None
      | Some h \<Rightarrow>
          (\<exists>h'. (if alias_of h = GenericAlias
                 then generic_type e = dunder_name h \<and> dunder_name h \<noteq> None \<and>
                      (\<exists>rest. get_args h = h' # rest)
                 else generic_type e = None \<and> h' = h) \<and>
                (if alias_of h' = UnionGenericAlias
                 then (\<exists>ns. map dunder_name (get_args h') = map Some ns \<and>
                         type' e = Some (TypeNames ns)) \<and>
                      enum_items e = None
                 else if dunder_name h' = Some ''Literal''
                 then type' e = Some (TypeName ''Literal'') \<and>
                      enum_items e = Some (get_args h')
                 else (\<exists>nm. dunder_name h' = Some nm \<and> type' e = Some (TypeName nm)) \<and>
                      enum_items e = None))"
    unfolding ne by simp
next
  fix n h
  assume unnamed: "n \<in> fst ` set (signature_inputs ps boilerplate_args) \<and> hints n = Some h \<and>
      alias_of h = NoAlias \<and> dunder_name h = None"
  have no_schema: "extract_docs' cls method_name boilerplate_args \<noteq> Inr d" for d
  proof
    assume ok: "extract_docs' cls method_name boilerplate_args = Inr d"
    have "map fst (docs_inputs d) = map fst (signature_inputs ps boilerplate_args)"
      using assms(1,2) ok by (rule extract_docs'_keys)
    then have "n \<in> fst ` set (docs_inputs d)"
      using unnamed by (metis list.set_map)
    then obtain e where entry: "(n, e) \<in> set (docs_inputs d)" by force
    from assms(1,2,4,3) ok entry show False
    proof (rule final_entry)
      fix dflt e1
      assume "case hints n of
             None \<Rightarrow> e1 = new_input n dflt
           | Some h \<Rightarrow> parse_type_hint h (new_input n dflt) = Inr e1"
      with unnamed have "parse_type_hint h (new_input n dflt) = Inr e1" by simp
      moreover have "parse_type_hint h (new_input n dflt) = Inl AttributeError"
        using unnamed by (intro unnamed_hint) simp_all
      ultimately show False by simp
    qed
  qed
  then obtain x where x: "extract_docs' cls method_name boilerplate_args = Inl x"
    by (cases "extract_docs' cls method_name boilerplate_args") auto
  from extract_docs'_error [OF x] assms(1,2,4)
  have "x = AttributeError \<or> x = IndexError" by auto
  with x show "extract_docs' cls method_name boilerplate_args = Inl AttributeError \<or>
      extract_docs' cls method_name boilerplate_args = Inl IndexError"
    by auto
qed

theorem extract_docs_type_hints_witness:
  "(\<exists>d. extract_docs' documented ''__init__'' (Some (Container [''file'', ''logger''])) = Inr d \<and>
      map (\<lambda>(n, e). (n, generic_type e, type' e, enum_items e)) (docs_inputs d) =
        [(''query'', None, Some (TypeNames [''str'', ''NoneType'']), None),
         (''mode'', None, Some (TypeName ''Literal''),
            Some [Constant (PStr ''x''), Constant (PStr ''y'')]),
         (''names'', Some ''list'', Some (TypeName ''str''), None),
         (''count'', None, Some (TypeName ''int''), None),
         (''extra'', None, None, None)]) \<and>
   (extract_docs' union_operator ''__init__'' (Some (Container [''file'', ''logger''])) =
      Inl AttributeError \<or>
    extract_docs' union_operator ''__init__'' (Some (Container [''file'', ''logger''])) =
      Inl IndexError)"
proof -
  let ?d = "\<lparr> docs_class = documented, docs_name = Some ''Select elements'',
             docs_output = Some (''model'', ''The patched model''),
             docs_description = Some ''Keeps what the query selects.'',
             docs_inputs = documented_schema \<rparr>"
  let ?ps = "[(''self'', None), (''file'', None), (''logger'', None), (''query'', Some PNone),
      (''mode'', Some (PStr ''x'')), (''names'', Some (PList [])), (''count'', Some (PInt 1)),
      (''extra'', Some PNone)]"
  let ?hints = "[''query'' \<mapsto> Hint UnionGenericAlias (Some ''Optional'') [str_hint, none_hint],
      ''mode'' \<mapsto> Hint NoAlias (Some ''Literal'') [Constant (PStr ''x''), Constant (PStr ''y'')],
      ''names'' \<mapsto> Hint GenericAlias (Some ''list'') [str_hint],
      ''count'' \<mapsto> int_hint]"
  have m: "methods documented ''__init__'' = Some documented_init"
    by (simp add: documented_def)
  have ps: "signature documented_init = Inr ?ps" by (simp add: documented_init_def)
  have dist: "distinct (map fst ?ps)" by simp
  have hs: "get_type_hints documented_init = Inr ?hints" by (simp add: documented_init_def)
  have hints: "case ?hints n of
      None \<Rightarrow> generic_type e = None \<and> type' e = None \<and> enum_items e = None
    | Some h \<Rightarrow>
        (\<exists>h'. (if alias_of h = GenericAlias
               then generic_type e = dunder_name h \<and> dunder_name h \<noteq> None \<and>
                    (\<exists>rest. get_args h = h' # rest)
               else generic_type e = None \<and> h' = h) \<and>
              (if alias_of h' = UnionGenericAlias
               then (\<exists>ns. map dunder_name (get_args h') = map Some ns \<and>
                       type' e = Some (TypeNames ns)) \<and>
                    enum_items e = None
               else if dunder_name h' = Some ''Literal''
               then type' e = Some (TypeName ''Literal'') \<and>
                    enum_items e = Some (get_args h')
               else (\<exists>nm. dunder_name h' = Some nm \<and> type' e = Some (TypeName nm)) \<and>
                    enum_items e = None))"
    if "(n, e) \<in> set documented_schema" for n e
  proof -
    have "(n, e) \<in> set (docs_inputs ?d)" using that by simp
    from extract_docs_type_hints [OF m ps dist hs, THEN conjunct1, rule_format,
        OF documented_docs this]
    show ?thesis by simp
  qed
  have entries: "docs_inputs ?d = documented_schema" by simp
  have extra: "generic_type e = None \<and> type' e = None \<and> enum_items e = None"
    if "(''extra'', e) \<in> set documented_schema" for e
    using hints [OF that] by simp
  have count: "generic_type e = None \<and> type' e = Some (TypeName ''int'') \<and> enum_items e = None"
    if "(''count'', e) \<in> set documented_schema" for e
    using hints [OF that] by (simp add: int_hint_def)
  have names: "generic_type e = Some ''list'' \<and> type' e = Some (TypeName ''str'') \<and>
      enum_items e = None"
    if "(''names'', e) \<in> set documented_schema" for e
    using hints [OF that] by (simp add: str_hint_def)
  have mode: "generic_type e = None \<and> type' e = Some (TypeName ''Literal'') \<and>
      enum_items e = Some [Constant (PStr ''x''), Constant (PStr ''y'')]"
    if "(''mode'', e) \<in> set documented_schema" for e
    using hints [OF that] by simp
  have query: "generic_type e = None \<and> type' e = Some (TypeNames [''str'', ''NoneType'']) \<and>
      enum_items e = None"
    if "(''query'', e) \<in> set documented_schema" for e
  proof -
    from hints [OF that]
    have "\<exists>ns. map dunder_name [str_hint, none_hint] = map Some ns \<and>
        type' e = Some (TypeNames ns)"
      and "generic_type e = None" and "enum_items e = None"
      by simp_all
    then show ?thesis
      by (auto simp: str_hint_def none_hint_def Cons_eq_map_conv)
  qed
  have "map (\<lambda>(n, e). (n, generic_type e, type' e, enum_items e)) documented_schema =
       [(''query'', None, Some (TypeNames [''str'', ''NoneType'']), None),
        (''mode'', None, Some (TypeName ''Literal''),
           Some [Constant (PStr ''x''), Constant (PStr ''y'')]),
        (''names'', Some ''list'', Some (TypeName ''str''), None),
        (''count'', None, Some (TypeName ''int''), None),
        (''extra'', None, None, None)]"
    using extra count names mode query
    unfolding documented_schema_def by simp
  with documented_docs entries
  have first: "\<exists>d. extract_docs' documented ''__init__''
        (Some (Container [''file'', ''logger''])) = Inr d \<and>
      map (\<lambda>(n, e). (n, generic_type e, type' e, enum_items e)) (docs_inputs d) =
        [(''query'', None, Some (TypeNames [''str'', ''NoneType'']), None),
         (''mode'', None, Some (TypeName ''Literal''),
            Some [Constant (PStr ''x''), Constant (PStr ''y'')]),
         (''names'', Some ''list'', Some (TypeName ''str''), None),
         (''count'', None, Some (TypeName ''int''), None),
         (''extra'', None, None, None)]"
    by (intro exI [of _ ?d]) simp
  let ?u = "\<lparr> signature = Inr [(''self'', None), (''file'', None), (''logger'', None),
               (''query'', None)],
             get_type_hints = Inr [''query'' \<mapsto> str_or_none],
             doc = None \<rparr>"
  have um: "methods union_operator ''__init__'' = Some ?u"
    by (simp add: union_operator_def)
  have ups: "signature ?u = Inr [(''self'', None), (''file'', None), (''logger'', None),
      (''query'', None)]"
    by simp
  have udist: "distinct (map fst [(''self'', None :: pyval option), (''file'', None),
      (''logger'', None), (''query'', None)])"
    by simp
  have uhs: "get_type_hints ?u = Inr [''query'' \<mapsto> str_or_none]" by simp
  have retained: "''query'' \<in> fst ` set (signature_inputs
      [(''self'', None), (''file'', None), (''logger'', None), (''query'', None)]
      (Some (Container [''file'', ''logger''])))"
    by (simp add: signature_inputs_def)
  have unnamed: "''query'' \<in> fst ` set (signature_inputs
      [(''self'', None), (''file'', None), (''logger'', None), (''query'', None)]
      (Some (Container [''file'', ''logger'']))) \<and>
      [''query'' \<mapsto> str_or_none] ''query'' = Some str_or_none \<and>
      alias_of str_or_none = NoAlias \<and> dunder_name str_or_none = None"
    using retained by (simp add: str_or_none_def)
  have second: "extract_docs' union_operator ''__init__''
        (Some (Container [''file'', ''logger''])) = Inl AttributeError \<or>
      extract_docs' union_operator ''__init__''
        (Some (Container [''file'', ''logger''])) = Inl IndexError"
    by (rule extract_docs_type_hints [OF um ups udist uhs, THEN conjunct2, rule_format,
        OF unnamed])
  from first second show ?thesis by (rule conjI)
qed

text \<open>
  The claim as stated fails for a union written with the operator and for a container
  of the \<^verbatim>\<open>typing\<close> module. With the hint \<^verbatim>\<open>str | None\<close>, \<^verbatim>\<open>_extract_docs\<close> raises
  \<^verbatim>\<open>AttributeError\<close>: there is no list of member names. With the hint \<^verbatim>\<open>typing.List[str]\<close>,
  the \<^verbatim>\<open>type\<close> is \<^verbatim>\<open>List\<close> and no container is recorded: the type is not unwrapped to
  \<^verbatim>\<open>str\<close>.
\<close>

theorem type_hint_forms_counterexample:
  "extract_docs' union_operator ''__init__'' (Some (Container [''file'', ''logger''])) =
     Inl AttributeError \<and>
   extract_docs' typing_container ''__init__'' (Some (Container [''file'', ''logger''])) =
     Inr \<lparr> docs_class = typing_container, docs_name = None, docs_output = None,
           docs_description = None,
           docs_inputs =
             [(''names'', \<lparr> name = ''names'', default = None, generic_type = None,
                 type' = Some (TypeName ''List''), enum_items = None,
                 description = None, filter_glob = None \<rparr>)] \<rparr>"
proof -
  have sig: "signature_inputs
      [(''self'', None), (''file'', None), (''logger'', None), (n, None)]
      (Some (Container [''file'', ''logger''])) = [(n, new_input n None)]"
    if "n = ''query'' \<or> n = ''names''" for n
    using that by (auto simp: signature_inputs_def)
  have first: "extract_docs' union_operator ''__init__''
      (Some (Container [''file'', ''logger''])) = Inl AttributeError"
    by (simp add: extract_docs'_def union_operator_def hinted_inputs_def sig
        parse_type_hint_def unwrap_generic_def record_type_def str_or_none_def new_input_def)
  have second: "extract_docs' typing_container ''__init__''
      (Some (Container [''file'', ''logger''])) =
     Inr \<lparr> docs_class = typing_container, docs_name = None, docs_output = None,
           docs_description = None,
           docs_inputs =
             [(''names'', \<lparr> name = ''names'', default = None, generic_type = None,
                 type' = Some (TypeName ''List''), enum_items = None,
                 description = None, filter_glob = None \<rparr>)] \<rparr>"
    unfolding extract_docs'_def
    by (simp add: typing_container_def hinted_inputs_def sig
        parse_type_hint_def unwrap_generic_def record_type_def typing_List_str_def new_input_def)
  from first second show ?thesis by (rule conjI)
qed

subsection \<open>Exceptions that escape\<close>

lemma few_fields_return_line:
  assumes "0 < i" and "startswith (strip line) '':return:''"
    and "length (split CHR '':'' (strip line)) < 4"
  shows "parse_line i line st = Inl IndexError"
  using assms by (simp add: parse_line_def Let_def item_def split: sum.splits)

lemma return_fields:
  "length (split CHR '':'' ('':return:'' @ rest)) < 4 \<longleftrightarrow> CHR '':'' \<notin> set rest"
  by (simp add: split_length count_list_0_iff)


lemma no_parameters:
  "signature_inputs [(''self'', None), (''file'', None), (''logger'', None)]
     (Some (Container [''file'', ''logger''])) = []"
  by (simp add: signature_inputs_def)

text \<open>
  Claim C10, as amended. Take a recipe that loads, with the class and the method there,
  and whose signature and type hints are processed without exception. If a line of the
  docstring other than the first begins, once stripped, with \<^verbatim>\<open>:return:\<close> and splits on the
  colon into fewer than four fields (that is, \<^verbatim>\<open>return_fields\<close>: no colon follows the tag),
  then \<^verbatim>\<open>extract_docs\<close> raises \<^verbatim>\<open>IndexError\<close> to its caller and prints nothing. The docstring
  with the line \<^verbatim>\<open>:return: The patched model\<close> after its title is such a comment.
\<close>

theorem return_line_escapes:
  assumes "exec_module submodule_name = Inr submodule"
    and "submodule cls_name = Some cls"
    and "methods cls method_name = Some m"
    and "hinted_inputs m boilerplate_args = Inr inputs"
    and "doc m = Some docstring"
    and "k < length (split CHR ''\<newline>'' docstring)"
    and "0 < k"
    and "startswith (strip (split CHR ''\<newline>'' docstring ! k)) '':return:''"
    and "length (split CHR '':'' (strip (split CHR ''\<newline>'' docstring ! k))) < 4"
  shows "extract_docs exec_module submodule_name cls_name method_name boilerplate_args =
           ([], Inl IndexError)"
proof -
  let ?lines = "split CHR ''\<newline>'' docstring"
  have "parse_line (0 + k) (?lines ! k) st = Inl IndexError" for st
    using assms(7-9) by (simp add: few_fields_return_line)
  with assms(6) have "parse_lines 0 ?lines st = Inl IndexError" for st
    by (rule parse_lines_raises)
  then have "extract_docs' cls method_name boilerplate_args = Inl IndexError"
    using assms(3-5) by (simp add: extract_docs'_def)
  then show ?thesis
    using assms(1,2) by (simp add: extract_docs_def)
qed

theorem return_line_escapes_witness:
  "extract_docs example_loader ''SphinxReturn'' ''Patcher'' ''__init__''
     (Some (Container [''file'', ''logger''])) = ([], Inl IndexError)"
proof -
  let ?m = "\<lparr> signature = Inr [(''self'', None), (''file'', None), (''logger'', None)],
             get_type_hints = Inr Map.empty,
             doc = Some ''Fix the model\<newline>\<newline>    :return: The patched model\<newline>    '' \<rparr>"
  have loaded: "example_loader ''SphinxReturn'' = Inr [''Patcher'' \<mapsto> sphinx_return]"
    by (simp add: example_loader_def)
  have cls: "[''Patcher'' \<mapsto> sphinx_return] ''Patcher'' = Some sphinx_return" by simp
  have m: "methods sphinx_return ''__init__'' = Some ?m" by (simp add: sphinx_return_def)
  have hinted: "hinted_inputs ?m (Some (Container [''file'', ''logger''])) = Inr []"
    by (simp add: hinted_inputs_def no_parameters)
  have d: "doc ?m = Some ''Fix the model\<newline>\<newline>    :return: The patched model\<newline>    ''"
    by simp
  have lines: "split CHR ''\<newline>'' ''Fix the model\<newline>\<newline>    :return: The patched model\<newline>    '' =
      [''Fix the model'', [], ''    :return: The patched model'', ''    '']"
    by simp
  have line: "strip ''    :return: The patched model'' = '':return: The patched model''"
    by (simp add: strip_def isspace_def)
  show ?thesis
  proof (rule return_line_escapes
      [where exec_module = example_loader and submodule = "[''Patcher'' \<mapsto> sphinx_return]"
         and k = 2, OF loaded cls m hinted d])
    show "2 < length (split CHR ''\<newline>'' ''Fix the model\<newline>\<newline>    :return: The patched model\<newline>    '')"
      unfolding lines by simp
    show "0 < (2::nat)" by simp
    show "startswith (strip (split CHR ''\<newline>'' ''Fix the model\<newline>\<newline>    :return: The patched model\<newline>    '' ! 2)) '':return:''"
      unfolding lines by (simp add: line)
    show "length (split CHR '':'' (strip (split CHR ''\<newline>'' ''Fix the model\<newline>\<newline>    :return: The patched model\<newline>    '' ! 2))) < 4"
      unfolding lines by (simp add: line)
  qed
qed

text \<open>
  The claim as stated fails: not every docstring with such a line makes \<^verbatim>\<open>extract_docs\<close>
  raise. When the line \<^verbatim>\<open>:return: The patched model\<close> is the first line of the docstring it
  becomes the title, and the metadata is returned. When it comes after the title and a
  parameter has the hint \<^verbatim>\<open>str | None\<close>, the hints raise \<^verbatim>\<open>AttributeError\<close> before the
  docstring is read: that exception is caught, a diagnostic is printed and nothing is
  returned.
\<close>

theorem return_line_harmless_counterexample:
  "extract_docs example_loader ''ReturnFirst'' ''Patcher'' ''__init__''
     (Some (Container [''file'', ''logger''])) =
     ([], Inr (Some \<lparr> docs_class = return_first,
                       docs_name = Some '':return: The patched model'',
                       docs_output = None, docs_description = Some [],
                       docs_inputs = [] \<rparr>)) \<and>
   startswith (strip '':return: The patched model'') '':return:'' \<and>
   length (split CHR '':'' (strip '':return: The patched model'')) = 3 \<and>
   extract_docs example_loader ''UnionOperatorReturn'' ''Patcher'' ''__init__''
     (Some (Container [''file'', ''logger''])) = ([Printed AttributeError], Inr None)"
proof -
  have line: "strip '':return: The patched model'' = '':return: The patched model''"
    by (simp add: strip_def isspace_def)
  have first: "extract_docs' return_first ''__init__'' (Some (Container [''file'', ''logger''])) =
      Inr \<lparr> docs_class = return_first, docs_name = Some '':return: The patched model'',
            docs_output = None, docs_description = Some [], docs_inputs = [] \<rparr>"
    unfolding extract_docs'_def
    by (simp add: return_first_def hinted_inputs_def no_parameters parse_line_def Let_def line)
       (simp add: strip_def)
  have sig: "signature_inputs
      [(''self'', None), (''file'', None), (''logger'', None), (''query'', None)]
      (Some (Container [''file'', ''logger''])) = [(''query'', new_input ''query'' None)]"
    by (simp add: signature_inputs_def)
  have second: "extract_docs' union_operator_return ''__init__''
      (Some (Container [''file'', ''logger''])) = Inl AttributeError"
    by (simp add: extract_docs'_def union_operator_return_def hinted_inputs_def sig
        parse_type_hint_def unwrap_generic_def record_type_def str_or_none_def new_input_def)
  show ?thesis
    by (simp add: extract_docs_def example_loader_def first second line)
qed




subsection \<open>Lines that start with the param tag\<close>

lemma split_sep_append: "sep \<notin> set a \<Longrightarrow> split sep (a @ sep # b) = a # split sep b"
  by (induction a) auto

lemma startswith_set: "startswith s p \<Longrightarrow> set p \<subseteq> set s"
  by (induction s p rule: startswith.induct) auto

lemma replace_absent:
  assumes "c \<in> set old" and "c \<notin> set s"
  shows "replace old new s = s"
proof (cases old)
  case Nil
  with assms show ?thesis by simp
next
  case (Cons p old')
  have "replace (p # old') new s = s" using assms(2)
  proof (induction s)
    case Nil
    then show ?case by simp
  next
    case (Cons x s)
    have "\<not> startswith (x # s) (p # old')"
      using startswith_set [of "x # s" "p # old'"] assms(1) Cons.prems
      by (auto simp: \<open>old = p # old'\<close>)
    with Cons show ?case by auto
  qed
  with Cons show ?thesis by simp
qed

lemma strip_id:
  assumes "s \<noteq> []" and "\<not> isspace (hd s)" and "\<not> isspace (last s)"
  shows "strip s = s"
proof -
  have "dropWhile isspace s = s" using assms(1,2) by (cases s) auto
  moreover have "dropWhile isspace (rev s) = rev s"
    using assms(1,3) by (cases "rev s") (auto simp: last_rev [symmetric] hd_rev)
  ultimately show ?thesis by (simp add: strip_def)
qed

lemma param_not_return: "startswith l '':param'' \<Longrightarrow> \<not> startswith l '':return:''"
  by (cases l; cases "tl l") auto

lemma param_two_fields: "startswith l '':param'' \<Longrightarrow> 1 < length (split CHR '':'' l)"
  by (cases l) (auto simp: split_length)

lemma well_formed_param_line:
  assumes "nm \<noteq> []" and "\<forall>c \<in> set nm. \<not> isspace c" and "CHR '':'' \<notin> set nm"
  shows "split CHR '':'' ('':param '' @ nm @ '':'' @ rest) = [] # (''param '' @ nm) # split CHR '':'' rest"
    and "replace ''param '' [] (strip (''param '' @ nm)) = nm"
proof -
  have "CHR '':'' \<notin> set (''param '' @ nm)" using assms(3) by simp
  from split_sep_append [OF this, of rest]
  show "split CHR '':'' ('':param '' @ nm @ '':'' @ rest) =
      [] # (''param '' @ nm) # split CHR '':'' rest"
    by simp
  have "\<not> isspace (last (''param '' @ nm))" using assms(1,2) by simp
  moreover have "\<not> isspace (hd (''param '' @ nm))" by (simp add: isspace_def)
  ultimately have "strip (''param '' @ nm) = ''param '' @ nm"
    by (intro strip_id) simp_all
  moreover have "CHR '' '' \<notin> set nm" using assms(2) by (auto simp: isspace_def)
  then have "replace ''param '' [] nm = nm" by (intro replace_absent [of "CHR '' ''"]) simp_all
  ultimately show "replace ''param '' [] (strip (''param '' @ nm)) = nm" by simp
qed

text \<open>
  Claim C8, as amended. Take a line of the docstring other than the first which, once
  stripped, begins with \<^verbatim>\<open>:param\<close>. It is split on the colon; the second field, stripped
  and with every occurrence of \<^verbatim>\<open>param \<close> removed, is the parameter name. If the name is
  no key of \<^verbatim>\<open>inputs\<close>, the line changes nothing. If it is, the third field, stripped,
  becomes the \<^verbatim>\<open>description\<close> of that parameter, and when there is no third field
  \<^verbatim>\<open>IndexError\<close> is raised. In particular, for a line \<^verbatim>\<open>:param NAME:TEXT\<close>, where NAME is
  not empty and has neither white space nor a colon and TEXT has no colon, the stripped
  TEXT becomes the description of NAME if NAME is a key of \<^verbatim>\<open>inputs\<close>, and nothing
  changes if it is not. (The first line of a docstring is its title, whatever it begins
  with.)
\<close>

theorem param_line:
  assumes "0 < i" and "startswith (strip line) '':param''"
  shows "parse_line i line st =
           (let fields = split CHR '':'' (strip line);
                param_name = replace ''param '' [] (strip (fields ! 1))
            in case map_of (st_inputs st) param_name of
                 None \<Rightarrow> Inr st
               | Some input_data \<Rightarrow>
                   if 2 < length fields
                   then Inr (st\<lparr> st_inputs :=
                               AList.update param_name
                                 (input_data\<lparr> description := Some (strip (fields ! 2)) \<rparr>)
                                 (st_inputs st) \<rparr>)
                   else Inl IndexError) \<and>
         (\<forall>nm descr. strip line = '':param '' @ nm @ '':'' @ descr \<and> nm \<noteq> [] \<and>
              (\<forall>c \<in> set nm. \<not> isspace c) \<and> CHR '':'' \<notin> set nm \<and> CHR '':'' \<notin> set descr \<longrightarrow>
            parse_line i line st =
              (case map_of (st_inputs st) nm of
                 None \<Rightarrow> Inr st
               | Some input_data \<Rightarrow>
                   Inr (st\<lparr> st_inputs :=
                          AList.update nm (input_data\<lparr> description := Some (strip descr) \<rparr>)
                            (st_inputs st) \<rparr>)))"
proof -
  let ?l = "strip line"
  let ?fields = "split CHR '':'' ?l"
  have nr: "\<not> startswith ?l '':return:''" using assms(2) by (rule param_not_return)
  have two: "1 < length ?fields" using assms(2) by (rule param_two_fields)
  have general: "parse_line i line st =
           (let fields = ?fields;
                param_name = replace ''param '' [] (strip (fields ! 1))
            in case map_of (st_inputs st) param_name of
                 None \<Rightarrow> Inr st
               | Some input_data \<Rightarrow>
                   if 2 < length fields
                   then Inr (st\<lparr> st_inputs :=
                               AList.update param_name
                                 (input_data\<lparr> description := Some (strip (fields ! 2)) \<rparr>)
                                 (st_inputs st) \<rparr>)
                   else Inl IndexError)"
    using assms nr two
    by (simp add: parse_line_def tagged_line_def item_def Let_def split: option.splits)
  have special: "parse_line i line st =
              (case map_of (st_inputs st) nm of
                 None \<Rightarrow> Inr st
               | Some input_data \<Rightarrow>
                   Inr (st\<lparr> st_inputs :=
                          AList.update nm (input_data\<lparr> description := Some (strip descr) \<rparr>)
                            (st_inputs st) \<rparr>))"
    if wf: "?l = '':param '' @ nm @ '':'' @ descr" "nm \<noteq> []" "\<forall>c \<in> set nm. \<not> isspace c"
      "CHR '':'' \<notin> set nm" "CHR '':'' \<notin> set descr"
    for nm descr
  proof -
    have "?fields = [[], ''param '' @ nm, descr]"
      unfolding wf(1) using well_formed_param_line(1) [OF wf(2-4), of descr] wf(5)
      by (simp add: split_no_sep)
    moreover have "replace ''param '' [] (strip (''param '' @ nm)) = nm"
      using wf(2-4) by (rule well_formed_param_line(2))
    ultimately show ?thesis
      unfolding general by (simp add: Let_def split: option.splits)
  qed
  from general special show ?thesis by blast
qed

theorem param_line_witness:
  "parse_line 1 ''    :param a: The first''
     \<lparr> st_name = Some ''Title'', st_output = None,
       st_inputs = [(''a'', new_input ''a'' (Some (PStr ''x'')))], st_description = [] \<rparr> =
   Inr \<lparr> st_name = Some ''Title'', st_output = None,
         st_inputs = [(''a'', (new_input ''a'' (Some (PStr ''x'')))
                                \<lparr> description := Some ''The first'' \<rparr>)],
         st_description = [] \<rparr> \<and>
   parse_line 1 ''    :param b: The second''
     \<lparr> st_name = Some ''Title'', st_output = None,
       st_inputs = [(''a'', new_input ''a'' (Some (PStr ''x'')))], st_description = [] \<rparr> =
   Inr \<lparr> st_name = Some ''Title'', st_output = None,
         st_inputs = [(''a'', new_input ''a'' (Some (PStr ''x'')))], st_description = [] \<rparr>"
proof -
  let ?st = "\<lparr> st_name = Some ''Title'', st_output = None,
       st_inputs = [(''a'', new_input ''a'' (Some (PStr ''x'')))], st_description = [] \<rparr>"
  have a: "strip ''    :param a: The first'' = '':param '' @ ''a'' @ '':'' @ '' The first''"
    and b: "strip ''    :param b: The second'' = '':param '' @ ''b'' @ '':'' @ '' The second''"
    by (simp_all add: strip_def isspace_def)
  have pos: "0 < (1::nat)" by simp
  have sa: "startswith (strip ''    :param a: The first'') '':param''"
    and sb: "startswith (strip ''    :param b: The second'') '':param''"
    unfolding a b by simp_all
  have wa: "strip ''    :param a: The first'' = '':param '' @ ''a'' @ '':'' @ '' The first'' \<and>
      ''a'' \<noteq> [] \<and> (\<forall>c \<in> set ''a''. \<not> isspace c) \<and> CHR '':'' \<notin> set ''a'' \<and>
      CHR '':'' \<notin> set '' The first''"
    using a by (simp add: isspace_def)
  have wb: "strip ''    :param b: The second'' = '':param '' @ ''b'' @ '':'' @ '' The second'' \<and>
      ''b'' \<noteq> [] \<and> (\<forall>c \<in> set ''b''. \<not> isspace c) \<and> CHR '':'' \<notin> set ''b'' \<and>
      CHR '':'' \<notin> set '' The second''"
    using b by (simp add: isspace_def)
  have first: "parse_line 1 ''    :param a: The first'' ?st =
      (case map_of (st_inputs ?st) ''a'' of
         None \<Rightarrow> Inr ?st
       | Some input_data \<Rightarrow>
           Inr (?st\<lparr> st_inputs :=
                  AList.update ''a'' (input_data\<lparr> description := Some (strip '' The first'') \<rparr>)
                    (st_inputs ?st) \<rparr>))"
    by (rule param_line [OF pos sa, THEN conjunct2, rule_format, OF wa])
  have second: "parse_line 1 ''    :param b: The second'' ?st =
      (case map_of (st_inputs ?st) ''b'' of
         None \<Rightarrow> Inr ?st
       | Some input_data \<Rightarrow>
           Inr (?st\<lparr> st_inputs :=
                  AList.update ''b'' (input_data\<lparr> description := Some (strip '' The second'') \<rparr>)
                    (st_inputs ?st) \<rparr>))"
    by (rule param_line [OF pos sb, THEN conjunct2, rule_format, OF wb])
  have s: "strip '' The first'' = ''The first''" by (simp add: strip_def isspace_def)
  show ?thesis
    unfolding first second by (simp add: s)
qed

text \<open>
  The claim as stated fails for the first line of a docstring: the line
  \<^verbatim>\<open>:param a: The first\<close> names the known parameter \<^verbatim>\<open>a\<close>, and it becomes the title of the
  schema while \<^verbatim>\<open>a\<close> gets no description.
\<close>

theorem param_first_line_counterexample:
  "extract_docs' param_first ''__init__'' (Some (Container [''file'', ''logger''])) =
     Inr \<lparr> docs_class = param_first, docs_name = Some '':param a: The first'',
           docs_output = None, docs_description = Some [],
           docs_inputs =
             [(''a'', \<lparr> name = ''a'', default = Some (PStr ''x''), generic_type = None,
                 type' = Some (TypeName ''str''), enum_items = None,
                 description = None, filter_glob = None \<rparr>)] \<rparr>"
proof -
  let ?m = "\<lparr> signature = Inr [(''self'', None), (''file'', None), (''logger'', None),
             (''a'', Some (PStr ''x''))],
           get_type_hints = Inr [''a'' \<mapsto> str_hint],
           doc = Some '':param a: The first'' \<rparr>"
  have m: "methods param_first ''__init__'' = Some ?m" by (simp add: param_first_def)
  have sig: "signature_inputs [(''self'', None), (''file'', None), (''logger'', None),
             (''a'', Some (PStr ''x''))] (Some (Container [''file'', ''logger''])) =
      [(''a'', new_input ''a'' (Some (PStr ''x'')))]"
    by (simp add: signature_inputs_def)
  have hinted: "hinted_inputs ?m (Some (Container [''file'', ''logger''])) =
      Inr [(''a'', \<lparr> name = ''a'', default = Some (PStr ''x''), generic_type = None,
                 type' = Some (TypeName ''str''), enum_items = None,
                 description = None, filter_glob = None \<rparr>)]"
    unfolding hinted_inputs_def
    by (simp add: sig parse_type_hint_def unwrap_generic_def record_type_def str_hint_def
        new_input_def)
  show ?thesis
    unfolding extract_docs'_def m
    by (simp add: hinted parse_line_def Let_def strip_def isspace_def)
qed

end
